theory Spec2Isabelle
  imports Main "HOL-Library.Word" "HOL-Library.Sublist"
begin

section \<open>JavaScript values\<close>

text \<open>
  The migration script handles documents read from MongoDB. A document, its
  \<open>restaurantId\<close>, its \<open>items\<close> and every item are JavaScript values; the script
  tests them for truthiness, reads properties from them, interpolates them into
  template literals and spreads them into object literals. The values are modelled as
  the JSON-like fragment of JavaScript.

  A number is kept as the text JavaScript prints for it (\<open>42\<close>, \<open>0.5\<close>, \<open>1e+21\<close>,
  \<open>NaN\<close>): the script does nothing with a number of a document but test it and print
  it. An object is the ordered list of its own enumerable properties; no value of a
  document is a function. A string is a list of characters below 256. A value of one of
  the database driver's classes that the script only prints or matches (an \<open>ObjectId\<close>
  as \<open>_id\<close>) stands as the string it prints.
\<close>

datatype jsval =
    JUndefined
  | JNull
  | JBool bool
  | JNum string
  | JStr string
  | JArr "jsval list"
  | JObj "(string \<times> jsval) list"

text \<open>What \<open>throw\<close> carries: the script only ever reads \<open>error.message\<close>.\<close>

datatype js_error = Error string | TypeError string

fun message :: "js_error \<Rightarrow> string" where
  "message (Error m) = m"
| "message (TypeError m) = m"

text \<open>\<open>if (x)\<close> and \<open>!x\<close>: the falsy values are \<open>undefined\<close>, \<open>null\<close>, \<open>false\<close>, the
  numbers \<open>0\<close>, \<open>-0\<close> (both print as \<open>0\<close>) and \<open>NaN\<close>, and the empty string.\<close>

fun truthy :: "jsval \<Rightarrow> bool" where
  "truthy JUndefined = False"
| "truthy JNull = False"
| "truthy (JBool b) = b"
| "truthy (JNum n) = (n \<noteq> ''0'' \<and> n \<noteq> ''NaN'')"
| "truthy (JStr s) = (s \<noteq> [])"
| "truthy (JArr xs) = True"
| "truthy (JObj kv) = True"

text \<open>\<open>Array.isArray\<close>.\<close>

fun isArray :: "jsval \<Rightarrow> bool" where
  "isArray (JArr xs) = True"
| "isArray v = False"

fun elements :: "jsval \<Rightarrow> jsval list" where
  "elements (JArr xs) = xs"
| "elements v = []"

subsection \<open>Conversion to string, as a template literal does it\<close>

text \<open>Decimal digits of a natural number: the indices of an array, the counter of the
  driver.\<close>

definition digit_char :: "nat \<Rightarrow> char" where
  "digit_char d = ''0123456789'' ! d"

function show_nat :: "nat \<Rightarrow> string" where
  "show_nat n = (if n < 10 then [digit_char n] else show_nat (n div 10) @ [digit_char (n mod 10)])"
  by pat_completeness auto
termination
  by (relation "measure id") auto

declare show_nat.simps [simp del]

fun join_comma :: "string list \<Rightarrow> string" where
  "join_comma [] = []"
| "join_comma [s] = s"
| "join_comma (s # t # ss) = s @ '','' @ join_comma (t # ss)"

text \<open>The results of a list of conversions, or the first error among them.\<close>

fun all_or_first_error :: "(js_error + string) list \<Rightarrow> js_error + string list" where
  "all_or_first_error [] = Inr []"
| "all_or_first_error (Inl e # rs) = Inl e"
| "all_or_first_error (Inr s # rs) =
     (case all_or_first_error rs of Inl e \<Rightarrow> Inl e | Inr ss \<Rightarrow> Inr (s # ss))"

definition not_primitive :: js_error where
  "not_primitive = TypeError ''Cannot convert object to primitive value''"

text \<open>
  \<open>`${v}`\<close> converts \<open>v\<close> to a string, and the conversion can throw. An array prints
  its elements separated by commas, \<open>null\<close> and \<open>undefined\<close> elements as nothing, and
  throws when an element does. An object is asked for its \<open>toString\<close>, then for its
  \<open>valueOf\<close>: a plain object inherits both and prints as \<open>[object Object]\<close>; an
  object with an own property \<open>toString\<close> (not a function, as no value of a document
  is) has no callable \<open>toString\<close>, its \<open>valueOf\<close>, own or inherited, gives no
  primitive, and the conversion throws a \<open>TypeError\<close>.
\<close>

fun to_string :: "jsval \<Rightarrow> js_error + string" where
  "to_string JUndefined = Inr ''undefined''"
| "to_string JNull = Inr ''null''"
| "to_string (JBool b) = Inr (if b then ''true'' else ''false'')"
| "to_string (JNum n) = Inr n"
| "to_string (JStr s) = Inr s"
| "to_string (JArr xs) =
     (case all_or_first_error
             (map (\<lambda>x. if x = JUndefined \<or> x = JNull then Inr [] else to_string x) xs) of
        Inl e \<Rightarrow> Inl e
      | Inr ss \<Rightarrow> Inr (join_comma ss))"
| "to_string (JObj kv) =
     (if ''toString'' \<in> set (map fst kv) then Inl not_primitive else Inr ''[object Object]'')"

text \<open>A template literal: its literal parts and its substitutions, converted from left
  to right; the first conversion that throws ends the evaluation.\<close>

datatype part = Lit string | Sub jsval

fun template :: "part list \<Rightarrow> js_error + string" where
  "template [] = Inr []"
| "template (Lit s # ps) = (case template ps of Inl e \<Rightarrow> Inl e | Inr t \<Rightarrow> Inr (s @ t))"
| "template (Sub v # ps) =
     (case to_string v of
        Inl e \<Rightarrow> Inl e
      | Inr s \<Rightarrow> (case template ps of Inl e \<Rightarrow> Inl e | Inr t \<Rightarrow> Inr (s @ t)))"

subsection \<open>Properties\<close>

text \<open>
  The own enumerable properties of a value, in the order the spread \<open>{...v}\<close> copies
  them: the properties of an object, the indices of an array, the indices of a string
  (one character each), nothing for the other primitives. Inherited and non-enumerable
  properties (\<open>length\<close>, methods) are not modelled; the script reads \<open>image\<close>, \<open>id\<close>,
  \<open>_id\<close>, \<open>restaurantId\<close> and \<open>items\<close>, which no prototype has.
\<close>

fun own_props :: "jsval \<Rightarrow> (string \<times> jsval) list" where
  "own_props (JObj kv) = kv"
| "own_props (JArr xs) = zip (map show_nat [0..<length xs]) xs"
| "own_props (JStr s) = zip (map show_nat [0..<length s]) (map (\<lambda>c. JStr [c]) s)"
| "own_props v = []"

definition field :: "(string \<times> jsval) list \<Rightarrow> string \<Rightarrow> jsval" where
  "field kv k = (case map_of kv k of None \<Rightarrow> JUndefined | Some v \<Rightarrow> v)"

text \<open>\<open>v.k\<close>: reading a property of \<open>null\<close> or \<open>undefined\<close> throws a \<open>TypeError\<close>
  (the message is the one of V8, the engine of Node.js); a property that is not there
  reads as \<open>undefined\<close>.\<close>

fun get_prop :: "jsval \<Rightarrow> string \<Rightarrow> js_error + jsval" where
  "get_prop JUndefined k =
     Inl (TypeError (''Cannot read properties of undefined (reading '' @ [CHR 0x27] @ k @ [CHR 0x27] @ '')''))"
| "get_prop JNull k =
     Inl (TypeError (''Cannot read properties of null (reading '' @ [CHR 0x27] @ k @ [CHR 0x27] @ '')''))"
| "get_prop v k = Inr (field (own_props v) k)"

text \<open>Writing a property of an object literal: an existing key keeps its place and
  takes the new value, a new key goes last.\<close>

fun set_prop :: "(string \<times> jsval) list \<Rightarrow> string \<Rightarrow> jsval \<Rightarrow> (string \<times> jsval) list" where
  "set_prop [] k v = [(k, v)]"
| "set_prop ((k', v') # kv) k v =
     (if k' = k then (k, v) # kv else (k', v') # set_prop kv k v)"

text \<open>\<open>{ ...item, image: newUrl }\<close>\<close>

definition spread_image :: "jsval \<Rightarrow> string \<Rightarrow> jsval" where
  "spread_image item newUrl = JObj (set_prop (own_props item) ''image'' (JStr newUrl))"

section \<open>The world the script acts on\<close>

text \<open>
  The script talks to three services: it fetches image URLs over HTTP (axios), writes
  objects to one S3 bucket, and reads and updates one MongoDB collection. It reports on
  the console. The state of the bucket, of the collection and of the console is the
  \<open>world\<close>; every call to a service is appended to \<open>trace\<close>, whether it succeeds or
  not, so that "no fetch happens" is a statement about the trace.
\<close>

type_synonym bytes = "8 word list"

type_synonym document = "(string \<times> jsval) list"

record s3_object =
  Body :: bytes
  ContentType :: string

datatype level = LOG | WARN | ERROR

datatype io_event =
    HttpGet jsval
  | PutObject string string bytes string
  | UpdateOne jsval "jsval list"
  | Connect
  | Close
  | Exit nat

record world =
  bucket :: "string \<rightharpoonup> s3_object"
  db :: "document list"
  console :: "(level \<times> string list) list"
  trace :: "io_event list"

text \<open>
  What the services answer is not the script's to decide: every answer is read from an
  environment, which may give a different answer at every call (it is asked with the
  number of calls made so far). \<open>http_get\<close> is the outcome of \<open>axios.get\<close>: the bytes
  of the response, or the message of the error thrown (network error, status outside
  2xx, timeout, a URL that is no URL). \<open>put_error\<close>, \<open>update_error\<close> and
  \<open>connect_error\<close> say whether \<open>putObject\<close>, the update of a document and
  \<open>client.connect\<close> throw.
\<close>

record env =
  http_get :: "nat \<Rightarrow> jsval \<Rightarrow> string + bytes"
  put_error :: "nat \<Rightarrow> string \<Rightarrow> string option"
  update_error :: "nat \<Rightarrow> jsval \<Rightarrow> string option"
  connect_error :: "string option"

definition console_log :: "string list \<Rightarrow> world \<Rightarrow> world" where
  "console_log args w = w\<lparr>console := console w @ [(LOG, args)]\<rparr>"

definition console_warn :: "string list \<Rightarrow> world \<Rightarrow> world" where
  "console_warn args w = w\<lparr>console := console w @ [(WARN, args)]\<rparr>"

definition console_error :: "string list \<Rightarrow> world \<Rightarrow> world" where
  "console_error args w = w\<lparr>console := console w @ [(ERROR, args)]\<rparr>"

definition emit :: "io_event \<Rightarrow> world \<Rightarrow> world" where
  "emit e w = w\<lparr>trace := trace w @ [e]\<rparr>"

section \<open>Image Relocator: \<open>uploadImageToS3\<close>\<close>

definition BUCKET_NAME :: string where
  "BUCKET_NAME = ''gobbl-restaurant-images-bucket''"

definition REGION :: string where
  "REGION = ''ap-south-1''"

text \<open>\<open>`${restaurantId}/${restaurantId}-${itemId}.jpg`\<close>\<close>

definition s3_key :: "jsval \<Rightarrow> jsval \<Rightarrow> js_error + string" where
  "s3_key restaurantId itemId =
     template [Sub restaurantId, Lit ''/'', Sub restaurantId, Lit ''-'', Sub itemId, Lit ''.jpg'']"

text \<open>\<open>`https://${BUCKET_NAME}.s3.${REGION}.amazonaws.com/${key}`\<close>: three strings,
  nothing to throw.\<close>

definition public_url :: "string \<Rightarrow> string" where
  "public_url key = ''https://'' @ BUCKET_NAME @ ''.s3.'' @ REGION @ ''.amazonaws.com/'' @ key"

text \<open>
  The body of \<open>try\<close> in \<open>uploadImageToS3\<close>: the fetch, the key, \<open>putObject\<close>, the
  URL. \<open>s3.putObject\<close> overwrites whatever is stored under the key; a \<open>putObject\<close>
  that throws is taken to store nothing.
\<close>

definition upload_try ::
  "env \<Rightarrow> jsval \<Rightarrow> jsval \<Rightarrow> jsval \<Rightarrow> world \<Rightarrow> world \<times> (js_error + string)" where
  "upload_try E restaurantId itemId imageUrl w =
     (let w1 = emit (HttpGet imageUrl) w in
      case http_get E (length (trace w)) imageUrl of
        Inl m \<Rightarrow> (w1, Inl (Error m))
      | Inr buffer \<Rightarrow>
          (case s3_key restaurantId itemId of
             Inl e \<Rightarrow> (w1, Inl e)
           | Inr key \<Rightarrow>
               (let w2 = emit (PutObject BUCKET_NAME key buffer ''image/jpeg'') w1 in
                case put_error E (length (trace w1)) key of
                  Some m \<Rightarrow> (w2, Inl (Error m))
                | None \<Rightarrow>
                    (w2\<lparr>bucket := (bucket w2)(key \<mapsto> \<lparr>Body = buffer, ContentType = ''image/jpeg''\<rparr>)\<rparr>,
                     Inr (public_url key)))))"

text \<open>The \<open>catch\<close> of \<open>uploadImageToS3\<close>: report, then throw the error again. The
  line it reports is a template literal of the two ids; when that throws, its error is
  the one that leaves the function, and nothing is reported.\<close>

definition upload_catch ::
  "jsval \<Rightarrow> jsval \<Rightarrow> js_error \<Rightarrow> world \<Rightarrow> world \<times> (js_error + string)" where
  "upload_catch restaurantId itemId error w =
     (case template [Lit ''Error uploading image for restaurantId '', Sub restaurantId,
                     Lit '', item '', Sub itemId, Lit '':''] of
        Inl e \<Rightarrow> (w, Inl e)
      | Inr line \<Rightarrow> (console_error [line, message error] w, Inl error))"

definition uploadImageToS3 ::
  "env \<Rightarrow> jsval \<Rightarrow> jsval \<Rightarrow> jsval \<Rightarrow> world \<Rightarrow> world \<times> (js_error + string)" where
  "uploadImageToS3 E restaurantId itemId imageUrl w =
     (case upload_try E restaurantId itemId imageUrl w of
        (w1, Inr url) \<Rightarrow> (w1, Inr url)
      | (w1, Inl error) \<Rightarrow> upload_catch restaurantId itemId error w1)"

section \<open>Per-Document Updater: \<open>processDocument\<close>\<close>

text \<open>
  The repository holds the script twice. \<open>src/index.js\<close> (\<open>VariantA\<close>) and
  \<open>src/unnamed/part_000\<close> (\<open>VariantB\<close>) have the same \<open>uploadImageToS3\<close>, and
  their \<open>processDocument\<close> differ in two places: the URL given to an item whose image
  is missing or could not be relocated, and the call that stores the new items.
\<close>

datatype variant = VariantA | VariantB

definition PLACEHOLDER :: string where
  "PLACEHOLDER =
     ''https://gobbl-restaurant-images-bucket.s3.ap-south-1.amazonaws.com/landscape-placeholder-svgrepo-co.jpg''"

text \<open>The right-hand side of \<open>newUrl = ...\<close> in the \<open>else\<close> branch and in the \<open>catch\<close>:
  lines 75 and 80 of \<open>index.js\<close>, a template literal of the ids; lines 82 and 87 of
  \<open>part_000\<close>, a template literal with no substitution.\<close>

fun fallback_url :: "variant \<Rightarrow> jsval \<Rightarrow> jsval \<Rightarrow> js_error + string" where
  "fallback_url VariantA restaurantId itemId =
     template [Lit ''https://'', Lit BUCKET_NAME, Lit ''.s3.'', Lit REGION, Lit ''.amazonaws.com/'',
               Sub restaurantId, Lit ''/'', Sub restaurantId, Lit ''-'', Sub itemId, Lit ''.jpg'']"
| "fallback_url VariantB restaurantId itemId = template [Lit PLACEHOLDER]"

text \<open>The \<open>else\<close> branch of the \<open>try\<close>: the fallback, then a line on the console.\<close>

definition no_image ::
  "variant \<Rightarrow> jsval \<Rightarrow> jsval \<Rightarrow> world \<Rightarrow> world \<times> (js_error + string)" where
  "no_image V restaurantId itemId w =
     (case fallback_url V restaurantId itemId of
        Inl e \<Rightarrow> (w, Inl e)
      | Inr newUrl \<Rightarrow>
          (case template [Lit ''No original image for restaurantId '', Sub restaurantId,
                          Lit '', item '', Sub itemId, Lit ''. Setting URL to '', Lit newUrl] of
             Inl e \<Rightarrow> (w, Inl e)
           | Inr line \<Rightarrow> (console_log [line] w, Inr newUrl)))"

text \<open>
  The body of \<open>try\<close>. \<open>item.image\<close> and \<open>item.id\<close> throw when the item is \<open>null\<close> or
  \<open>undefined\<close>.
\<close>

definition try_block ::
  "env \<Rightarrow> variant \<Rightarrow> jsval \<Rightarrow> jsval \<Rightarrow> world \<Rightarrow> world \<times> (js_error + string)" where
  "try_block E V restaurantId item w =
     (case get_prop item ''image'' of
        Inl e \<Rightarrow> (w, Inl e)
      | Inr imageUrl \<Rightarrow>
          if truthy imageUrl then
            (case get_prop item ''id'' of
               Inl e \<Rightarrow> (w, Inl e)
             | Inr itemId \<Rightarrow> uploadImageToS3 E restaurantId itemId imageUrl w)
          else
            (case get_prop item ''id'' of
               Inl e \<Rightarrow> (w, Inl e)
             | Inr itemId \<Rightarrow> no_image V restaurantId itemId w))"

text \<open>The body of \<open>catch (err)\<close>: a line on the console, then the fallback. It reads
  \<open>item.id\<close> and prints the ids again, so whatever threw there in the \<open>try\<close> throws
  here again, and this error leaves \<open>processDocument\<close>.\<close>

definition catch_block ::
  "variant \<Rightarrow> jsval \<Rightarrow> jsval \<Rightarrow> js_error \<Rightarrow> world \<Rightarrow> world \<times> (js_error + string)" where
  "catch_block V restaurantId item err w =
     (case get_prop item ''id'' of
        Inl e \<Rightarrow> (w, Inl e)
      | Inr itemId \<Rightarrow>
          (case template [Lit ''Failed to update image for restaurantId '', Sub restaurantId,
                          Lit '', item '', Sub itemId, Lit '':''] of
             Inl e \<Rightarrow> (w, Inl e)
           | Inr line \<Rightarrow>
               (let w1 = console_error [line, message err] w in
                case fallback_url V restaurantId itemId of
                  Inl e \<Rightarrow> (w1, Inl e)
                | Inr newUrl \<Rightarrow> (w1, Inr newUrl))))"

text \<open>One turn of \<open>for (const item of doc.items)\<close>: the new item, or the error that
  leaves the loop.\<close>

definition loop_body ::
  "env \<Rightarrow> variant \<Rightarrow> jsval \<Rightarrow> jsval \<Rightarrow> world \<Rightarrow> world \<times> (js_error + jsval)" where
  "loop_body E V restaurantId item w =
     (case try_block E V restaurantId item w of
        (w1, Inr newUrl) \<Rightarrow> (w1, Inr (spread_image item newUrl))
      | (w1, Inl err) \<Rightarrow>
          (case catch_block V restaurantId item err w1 of
             (w2, Inl e) \<Rightarrow> (w2, Inl e)
           | (w2, Inr newUrl) \<Rightarrow> (w2, Inr (spread_image item newUrl))))"

fun for_items ::
  "env \<Rightarrow> variant \<Rightarrow> jsval \<Rightarrow> jsval list \<Rightarrow> jsval list \<Rightarrow> world \<Rightarrow> world \<times> (js_error + jsval list)" where
  "for_items E V restaurantId [] updatedItems w = (w, Inr updatedItems)"
| "for_items E V restaurantId (item # rest) updatedItems w =
     (case loop_body E V restaurantId item w of
        (w1, Inl e) \<Rightarrow> (w1, Inl e)
      | (w1, Inr newItem) \<Rightarrow> for_items E V restaurantId rest (updatedItems @ [newItem]) w1)"

text \<open>
  \<open>collection.updateOne({ _id: id }, { $set: { items: updatedItems } })\<close>: the first
  document of the collection with this \<open>_id\<close> gets the new \<open>items\<close>, every other field of
  it and every other document stay as they are; with no such document nothing changes.
\<close>

fun set_items :: "jsval \<Rightarrow> jsval list \<Rightarrow> document list \<Rightarrow> document list" where
  "set_items i updatedItems [] = []"
| "set_items i updatedItems (d # ds) =
     (if field d ''_id'' = i then set_prop d ''items'' (JArr updatedItems) # ds
      else d # set_items i updatedItems ds)"

text \<open>
  Modelled from the spec: \<open>RestaurantMenu\<close>, the model that \<open>part_000\<close> requires from
  \<open>./models/Menu\<close>, is not among the sources. Its \<open>findOneAndUpdate\<close> is taken to be
  what the spec says of the update, "a single update operation matching the document by
  its identifier, setting \<open>items\<close> to the new sequence": the same as \<open>updateOne\<close> of
  \<open>index.js\<close>. Both are \<open>updateOne\<close> here.
\<close>

definition updateOne :: "env \<Rightarrow> jsval \<Rightarrow> jsval list \<Rightarrow> world \<Rightarrow> world \<times> (js_error + unit)" where
  "updateOne E i updatedItems w =
     (let w1 = emit (UpdateOne i updatedItems) w in
      case update_error E (length (trace w)) i of
        Some m \<Rightarrow> (w1, Inl (Error m))
      | None \<Rightarrow> (w1\<lparr>db := set_items i updatedItems (db w1)\<rparr>, Inr ()))"

text \<open>The guard of \<open>processDocument\<close>: the warning is a template literal of \<open>doc._id\<close>,
  evaluated before \<open>console.warn\<close> is called.\<close>

definition skip_document :: "document \<Rightarrow> world \<Rightarrow> world \<times> (js_error + unit)" where
  "skip_document doc w =
     (case template [Lit ''Skipping document '', Sub (field doc ''_id''),
                     Lit '' due to missing restaurantId or items.''] of
        Inl e \<Rightarrow> (w, Inl e)
      | Inr line \<Rightarrow> (console_warn [line] w, Inr ()))"

text \<open>The last statement of \<open>processDocument\<close>, after the update.\<close>

definition log_updated :: "jsval \<Rightarrow> world \<Rightarrow> world \<times> (js_error + unit)" where
  "log_updated restaurantId w =
     (case template [Lit ''Updated document for restaurantId '', Sub restaurantId] of
        Inl e \<Rightarrow> (w, Inl e)
      | Inr line \<Rightarrow> (console_log [line] w, Inr ()))"

definition processDocument :: "env \<Rightarrow> variant \<Rightarrow> document \<Rightarrow> world \<Rightarrow> world \<times> (js_error + unit)" where
  "processDocument E V doc w =
     (let restaurantId = field doc ''restaurantId'' in
      if \<not> truthy restaurantId \<or> \<not> isArray (field doc ''items'') then skip_document doc w
      else
        (case for_items E V restaurantId (elements (field doc ''items'')) [] w of
           (w1, Inl e) \<Rightarrow> (w1, Inl e)
         | (w1, Inr updatedItems) \<Rightarrow>
             (case updateOne E (field doc ''_id'') updatedItems w1 of
                (w2, Inl e) \<Rightarrow> (w2, Inl e)
              | (w2, Inr u) \<Rightarrow> log_updated restaurantId w2)))"

section \<open>Migration Driver: \<open>updateRestaurantMenusImages\<close>\<close>

text \<open>
  The loop over the documents is the same in both files: \<open>processDocument\<close> inside
  \<open>try\<close>, a \<open>catch\<close> that reports the error, then the counter. The \<open>catch\<close> prints
  \<open>doc._id\<close> in a template literal: when that throws, the error leaves the loop.

  \<open>count\<close> is a JavaScript number. Up to \<open>2^53 = 9007199254740992\<close> it counts and
  prints as a natural number does; at \<open>2^53\<close>, \<open>count++\<close> leaves it as it is. It
  starts at 0 or at 101.
\<close>

definition js_incr :: "nat \<Rightarrow> nat" where
  "js_incr count = (if int count < 9007199254740992 then count + 1 else count)"

definition report_progress :: "nat \<Rightarrow> world \<Rightarrow> world" where
  "report_progress count w =
     (if count mod 100 = 0 then console_log [''Processed '' @ show_nat count @ '' documents so far...''] w
      else w)"

definition try_processDocument ::
  "env \<Rightarrow> variant \<Rightarrow> document \<Rightarrow> world \<Rightarrow> world \<times> (js_error + unit)" where
  "try_processDocument E V doc w =
     (case processDocument E V doc w of
        (w1, Inr u) \<Rightarrow> (w1, Inr ())
      | (w1, Inl error) \<Rightarrow>
          (case template [Lit ''Error processing document '', Sub (field doc ''_id''), Lit '':''] of
             Inl e \<Rightarrow> (w1, Inl e)
           | Inr line \<Rightarrow> (console_error [line, message error] w1, Inr ())))"

text \<open>\<open>doc_loop\<close> is the loop over the documents the iteration yields, from the first
  to the last: the world and the counter it ends with, or the error that leaves it.\<close>

fun doc_loop ::
  "env \<Rightarrow> variant \<Rightarrow> document list \<Rightarrow> nat \<Rightarrow> world \<Rightarrow> world \<times> (js_error + nat)" where
  "doc_loop E V [] count w = (w, Inr count)"
| "doc_loop E V (doc # rest) count w =
     (case try_processDocument E V doc w of
        (w1, Inl e) \<Rightarrow> (w1, Inl e)
      | (w1, Inr u) \<Rightarrow> doc_loop E V rest (js_incr count) (report_progress (js_incr count) w1))"

text \<open>After the loop, inside the outer \<open>try\<close>; and the outer \<open>catch\<close>.\<close>

definition after_loop :: "world \<times> (js_error + nat) \<Rightarrow> world" where
  "after_loop r =
     (case r of
        (w, Inr count) \<Rightarrow> console_log [''Finished processing all documents.''] w
      | (w, Inl error) \<Rightarrow> console_error [''Error updating restaurant menus images:'', message error] w)"

text \<open>\<open>finally\<close> of \<open>index.js\<close>: \<open>client.close()\<close>, then the last line on the console.\<close>

definition finally_A :: "world \<Rightarrow> world" where
  "finally_A w = console_log [''Disconnected from MongoDB.''] (emit Close w)"

text \<open>
  \<open>index.js\<close>: the cursor of \<open>collection.find({})\<close> is taken to yield the documents of
  the collection as they are when the loop starts, in their order, and not to throw.
  An error of \<open>client.connect\<close> goes to the outer \<open>catch\<close>.
\<close>

definition updateRestaurantMenusImages :: "env \<Rightarrow> world \<Rightarrow> world" where
  "updateRestaurantMenusImages E w =
     finally_A
       (let w0 = emit Connect w in
        case connect_error E of
          Some m \<Rightarrow> console_error [''Error updating restaurant menus images:'', m] w0
        | None \<Rightarrow>
            (let w1 = console_log [''Connected to MongoDB''] w0;
                 cursor = db w1
             in after_loop (doc_loop E VariantA cursor 0 w1)))"

subsection \<open>The driver of \<open>part_000\<close>\<close>

text \<open>
  \<open>part_000\<close> builds an aggregation pipeline, \<open>$skip: 101\<close> and a \<open>$project\<close> of
  \<open>_id\<close>, \<open>restaurantId\<close> and \<open>items\<close>. \<open>run_pipeline\<close> is what the database answers
  when the pipeline is sent to it.
\<close>

datatype stage = Skip nat | Project "string list"

fun run_stage :: "stage \<Rightarrow> document list \<Rightarrow> document list" where
  "run_stage (Skip n) ds = drop n ds"
| "run_stage (Project ks) ds = map (filter (\<lambda>p. fst p \<in> set ks)) ds"

fun run_pipeline :: "stage list \<Rightarrow> document list \<Rightarrow> document list" where
  "run_pipeline [] ds = ds"
| "run_pipeline (st # sts) ds = run_pipeline sts (run_stage st ds)"

text \<open>
  \<open>RestaurantMenu\<close> is the Mongoose model required from \<open>./models/Menu\<close>. A query
  to the database is asynchronous in Node.js: no call returns the documents themselves.
  In Mongoose, \<open>Model.aggregate(pipeline)\<close> returns an \<open>Aggregate\<close> object that holds
  the pipeline; the pipeline is sent when the object is awaited (or through \<open>exec()\<close>
  or \<open>cursor()\<close>). Line 98 of \<open>part_000\<close> does not await it, so \<open>collection\<close> is
  the \<open>Aggregate\<close> object itself. \<open>for (const doc of collection)\<close> asks its operand
  for a synchronous iterator; an array has one, an \<open>Aggregate\<close> has none (it has an
  asynchronous one, for \<open>for await\<close>), and the statement throws a \<open>TypeError\<close>
  before the first turn of the loop. \<open>iterand\<close> is what \<open>for ... of\<close> can be given
  here, \<open>get_iterator\<close> its first step.
\<close>

datatype iterand = Array "document list" | Aggregate "stage list"

fun get_iterator :: "iterand \<Rightarrow> js_error + document list" where
  "get_iterator (Array ds) = Inr ds"
| "get_iterator (Aggregate stages) = Inl (TypeError ''collection is not iterable'')"

text \<open>\<open>finally\<close> of \<open>part_000\<close>: \<open>mongoose.connection.close()\<close>, \<open>process.exit(0)\<close>.\<close>

definition finally_B :: "world \<Rightarrow> world" where
  "finally_B w = emit (Exit 0) (emit Close w)"

definition updateRestaurantMenusImages_B :: "env \<Rightarrow> world \<Rightarrow> world" where
  "updateRestaurantMenusImages_B E w =
     finally_B
       (let collection = Aggregate [Skip 101, Project [''_id'', ''restaurantId'', ''items'']];
            w0 = console_log [''fetched from db''] w
        in case get_iterator collection of
             Inl error \<Rightarrow> console_error [''Error updating restaurant menus images:'', message error] w0
           | Inr docs \<Rightarrow> after_loop (doc_loop E VariantB docs 101 w0))"

section \<open>Vocabulary of the claims\<close>

text \<open>\<open>printable v\<close>: a template literal can print \<open>v\<close>. Every value is printable but
  an object with an own property \<open>toString\<close>, and an array that holds such an object
  (at any depth).\<close>

definition printable :: "jsval \<Rightarrow> bool" where
  "printable v = (case to_string v of Inl e \<Rightarrow> False | Inr s \<Rightarrow> True)"

text \<open>The fallback URL, from the printed ids: line 75 and 80 of \<open>index.js\<close>, line
  82 and 87 of \<open>part_000\<close>.\<close>

definition fallback_text :: "variant \<Rightarrow> string \<Rightarrow> string \<Rightarrow> string" where
  "fallback_text V r i =
     (case V of
        VariantA \<Rightarrow> ''https://gobbl-restaurant-images-bucket.s3.ap-south-1.amazonaws.com/''
                      @ r @ ''/'' @ r @ ''-'' @ i @ ''.jpg''
      | VariantB \<Rightarrow> ''https://gobbl-restaurant-images-bucket.s3.ap-south-1.amazonaws.com/landscape-placeholder-svgrepo-co.jpg'')"

text \<open>
  \<open>relocated V restaurantId item newItem\<close>: the ids can be printed and the new item is
  the item with its \<open>image\<close> set to the URL built from them; or, in \<open>part_000\<close> only,
  the new item is the item with its \<open>image\<close> set to the placeholder.
\<close>

definition relocated :: "variant \<Rightarrow> jsval \<Rightarrow> jsval \<Rightarrow> jsval \<Rightarrow> bool" where
  "relocated V restaurantId item newItem \<longleftrightarrow>
     (case s3_key restaurantId (field (own_props item) ''id'') of
        Inl e \<Rightarrow> False
      | Inr key \<Rightarrow> newItem = spread_image item (public_url key))
     \<or> V = VariantB \<and> newItem = spread_image item PLACEHOLDER"

text \<open>
  The lines on the console that close the work on a document: the warning of a skipped
  document, the line after an update, the error caught by the driver. Every other line
  the script writes starts differently.
\<close>

definition is_verdict :: "level \<times> string list \<Rightarrow> bool" where
  "is_verdict entry =
     (case snd entry of
        [] \<Rightarrow> False
      | line # args \<Rightarrow>
          prefix ''Skipping document '' line
          \<or> prefix ''Updated document for restaurantId '' line
          \<or> prefix ''Error processing document '' line)"

text \<open>How many such lines the console holds.\<close>

definition verdicts :: "world \<Rightarrow> nat" where
  "verdicts w = length (filter is_verdict (console w))"

section \<open>Concrete inputs\<close>

text \<open>
  The document of the spec's end-to-end example, with a third field on the first item,
  and environments in which every call succeeds, every fetch fails, every \<open>putObject\<close>
  fails, every update fails.
\<close>

definition ex_item1 :: jsval where
  "ex_item1 = JObj [(''id'', JNum ''1''), (''image'', JStr ''http://ex.com/a.png''), (''name'', JStr ''Dal'')]"

definition ex_item2 :: jsval where
  "ex_item2 = JObj [(''id'', JNum ''2''), (''image'', JNull)]"

definition ex_item_noid :: jsval where
  "ex_item_noid = JObj [(''image'', JStr ''http://ex.com/b.png'')]"

definition ex_doc :: document where
  "ex_doc = [(''_id'', JStr ''d1''), (''restaurantId'', JNum ''42''), (''items'', JArr [ex_item1, ex_item2])]"

definition ex_doc_no_rid :: document where
  "ex_doc_no_rid = [(''_id'', JStr ''d0''), (''items'', JArr [ex_item1])]"

definition ex_doc_null_item :: document where
  "ex_doc_null_item = [(''_id'', JStr ''d2''), (''restaurantId'', JNum ''7''), (''items'', JArr [JNull])]"

definition ex_world :: world where
  "ex_world = \<lparr>bucket = Map.empty, db = [ex_doc], console = [], trace = []\<rparr>"

definition ex_env_ok :: env where
  "ex_env_ok = \<lparr>http_get = (\<lambda>n u. Inr [0xFF, 0xD8, 0xFF]), put_error = (\<lambda>n k. None),
                 update_error = (\<lambda>n i. None), connect_error = None\<rparr>"

definition ex_env_net_down :: env where
  "ex_env_net_down = \<lparr>http_get = (\<lambda>n u. Inl ''Network Error''), put_error = (\<lambda>n k. None),
                       update_error = (\<lambda>n i. None), connect_error = None\<rparr>"

definition ex_env_s3_down :: env where
  "ex_env_s3_down = \<lparr>http_get = (\<lambda>n u. Inr [0xFF, 0xD8, 0xFF]), put_error = (\<lambda>n k. Some ''Access Denied''),
                      update_error = (\<lambda>n i. None), connect_error = None\<rparr>"

definition ex_env_db_down :: env where
  "ex_env_db_down = \<lparr>http_get = (\<lambda>n u. Inr [0xFF, 0xD8, 0xFF]), put_error = (\<lambda>n k. None),
                      update_error = (\<lambda>n i. Some ''not primary''), connect_error = None\<rparr>"

text \<open>The example document after a run of \<open>index.js\<close>, and a collection of 102
  documents whose last one is the example document.\<close>

definition ex_doc_migrated :: document where
  "ex_doc_migrated =
     [(''_id'', JStr ''d1''), (''restaurantId'', JNum ''42''),
      (''items'', JArr [JObj [(''id'', JNum ''1''),
                              (''image'', JStr ''https://gobbl-restaurant-images-bucket.s3.ap-south-1.amazonaws.com/42/42-1.jpg''),
                              (''name'', JStr ''Dal'')],
                        JObj [(''id'', JNum ''2''),
                              (''image'', JStr ''https://gobbl-restaurant-images-bucket.s3.ap-south-1.amazonaws.com/42/42-2.jpg'')]])]"

definition ex_world_102 :: world where
  "ex_world_102 = \<lparr>bucket = Map.empty, db = replicate 101 ex_doc_no_rid @ [ex_doc], console = [], trace = []\<rparr>"

text \<open>
  Values that a template literal cannot print, as MongoDB can store them: an embedded
  document with a field named \<open>toString\<close>. A document with such an \<open>_id\<close> and no
  \<open>restaurantId\<close>; items with such an \<open>id\<close>, without and with an image; a document
  with such a \<open>restaurantId\<close> and one empty item; a collection that holds the first of
  these documents before the example document.
\<close>

definition ex_unprintable :: jsval where
  "ex_unprintable = JObj [(''toString'', JNum ''1'')]"

definition ex_doc_bad_id :: document where
  "ex_doc_bad_id = [(''_id'', ex_unprintable), (''items'', JArr [])]"

definition ex_item_bad_id :: jsval where
  "ex_item_bad_id = JObj [(''id'', JObj [(''toString'', JStr ''x'')]), (''image'', JNull)]"

definition ex_item_bad_id_image :: jsval where
  "ex_item_bad_id_image =
     JObj [(''id'', JObj [(''toString'', JStr ''x'')]), (''image'', JStr ''http://ex.com/a.png'')]"

definition ex_doc_bad_rid :: document where
  "ex_doc_bad_rid = [(''_id'', JStr ''d3''), (''restaurantId'', ex_unprintable), (''items'', JArr [JObj []])]"

definition ex_world_bad_id :: world where
  "ex_world_bad_id = \<lparr>bucket = Map.empty, db = [ex_doc_bad_id, ex_doc], console = [], trace = []\<rparr>"

section \<open>Facts about the model\<close>

subsection \<open>Strings and properties\<close>

lemma public_url_literal:
  "public_url key = ''https://gobbl-restaurant-images-bucket.s3.ap-south-1.amazonaws.com/'' @ key"
  by (simp add: public_url_def BUCKET_NAME_def REGION_def)

lemma template_Lit_Inr:
  "template (Lit s # ps) = Inr t \<longleftrightarrow> (\<exists>u. template ps = Inr u \<and> t = s @ u)"
  by (auto split: sum.splits)

lemma template_Sub_Inr:
  "template (Sub v # ps) = Inr t \<longleftrightarrow> (\<exists>s u. to_string v = Inr s \<and> template ps = Inr u \<and> t = s @ u)"
  by (auto split: sum.splits)

lemma s3_key_Inr:
  "s3_key restaurantId itemId = Inr key \<longleftrightarrow>
     (\<exists>r i. to_string restaurantId = Inr r \<and> to_string itemId = Inr i
            \<and> key = r @ ''/'' @ r @ ''-'' @ i @ ''.jpg'')"
  by (auto simp: s3_key_def split: sum.splits)

lemma s3_key_printed:
  "to_string restaurantId = Inr r \<Longrightarrow> to_string itemId = Inr i
     \<Longrightarrow> s3_key restaurantId itemId = Inr (r @ ''/'' @ r @ ''-'' @ i @ ''.jpg'')"
  by (simp add: s3_key_Inr)

lemma fallback_url_A:
  "fallback_url VariantA restaurantId itemId =
     (case s3_key restaurantId itemId of Inl e \<Rightarrow> Inl e | Inr key \<Rightarrow> Inr (public_url key))"
  by (simp add: s3_key_def public_url_def split: sum.splits)

lemma fallback_url_B: "fallback_url VariantB restaurantId itemId = Inr PLACEHOLDER"
  by simp

lemma fallback_url_printed:
  assumes "to_string restaurantId = Inr r" and "to_string itemId = Inr i"
  shows "fallback_url V restaurantId itemId = Inr (fallback_text V r i)"
  using assms
  by (cases V) (simp_all add: fallback_text_def BUCKET_NAME_def REGION_def PLACEHOLDER_def)

lemma printable_iff: "printable v \<longleftrightarrow> (\<exists>s. to_string v = Inr s)"
  by (auto simp: printable_def split: sum.splits)

lemma get_prop_Inr:
  "get_prop item k = Inr v \<Longrightarrow> get_prop item k' = Inr (field (own_props item) k')"
  by (cases item) auto

lemma get_prop_Inl:
  "get_prop item k = Inl e \<Longrightarrow> \<exists>e'. get_prop item k' = Inl e'"
  by (cases item) auto

lemma field_set_prop_same [simp]: "field (set_prop kv k v) k = v"
  by (induction kv) (auto simp: field_def)

lemma map_of_set_prop_other: "k' \<noteq> k \<Longrightarrow> map_of (set_prop kv k v) k' = map_of kv k'"
  by (induction kv) auto

lemma field_set_prop_other: "k' \<noteq> k \<Longrightarrow> field (set_prop kv k v) k' = field kv k'"
  by (simp add: field_def map_of_set_prop_other)

lemma set_prop_idem: "set_prop (set_prop kv k v) k v = set_prop kv k v"
  by (induction kv) auto

lemma get_prop_spread_image [simp]:
  "get_prop (spread_image item url) ''image'' = Inr (JStr url)"
  by (simp add: spread_image_def)

subsection \<open>The relocator\<close>

lemma uploadImageToS3_Inr:
  assumes "uploadImageToS3 E restaurantId itemId imageUrl w = (w', Inr url)"
  shows "\<exists>buffer key. http_get E (length (trace w)) imageUrl = Inr buffer
           \<and> s3_key restaurantId itemId = Inr key
           \<and> put_error E (Suc (length (trace w))) key = None
           \<and> url = public_url key
           \<and> w' = w\<lparr>trace := trace w @ [HttpGet imageUrl, PutObject BUCKET_NAME key buffer ''image/jpeg''],
                     bucket := (bucket w)(key \<mapsto> \<lparr>Body = buffer, ContentType = ''image/jpeg''\<rparr>)\<rparr>"
  using assms
  by (auto simp: uploadImageToS3_def upload_try_def upload_catch_def emit_def Let_def
           split: sum.splits option.splits prod.splits)

text \<open>When the relocator throws, whatever it throws, it has written nothing.\<close>

lemma upload_try_Inl:
  assumes "upload_try E restaurantId itemId imageUrl w = (w', Inl err)"
  shows "bucket w' = bucket w \<and> db w' = db w \<and> console w' = console w
         \<and> (\<exists>evs. trace w' = trace w @ HttpGet imageUrl # evs)"
  using assms
  by (auto simp: upload_try_def emit_def Let_def split: sum.splits option.splits)

lemma upload_catch_frame:
  "bucket (fst (upload_catch restaurantId itemId error w)) = bucket w
   \<and> db (fst (upload_catch restaurantId itemId error w)) = db w
   \<and> trace (fst (upload_catch restaurantId itemId error w)) = trace w"
  by (simp add: upload_catch_def console_error_def split: sum.splits)

lemma uploadImageToS3_Inl:
  assumes "uploadImageToS3 E restaurantId itemId imageUrl w = (w', Inl err)"
  shows "bucket w' = bucket w \<and> db w' = db w
         \<and> (\<exists>evs. trace w' = trace w @ HttpGet imageUrl # evs)"
proof -
  obtain w1 r where t: "upload_try E restaurantId itemId imageUrl w = (w1, r)"
    by (cases "upload_try E restaurantId itemId imageUrl w")
  show ?thesis
  proof (cases r)
    case (Inr url)
    with t assms show ?thesis by (simp add: uploadImageToS3_def)
  next
    case (Inl error)
    with t assms have c: "upload_catch restaurantId itemId error w1 = (w', Inl err)"
      by (simp add: uploadImageToS3_def)
    from upload_catch_frame [of restaurantId itemId error w1] c
    have "bucket w' = bucket w1 \<and> db w' = db w1 \<and> trace w' = trace w1" by simp
    with upload_try_Inl [of E restaurantId itemId imageUrl w w1 error] t Inl show ?thesis
      by simp
  qed
qed

text \<open>When the relocator throws and the ids can be printed, it throws the error of the
  fetch or of \<open>putObject\<close>, and has reported it.\<close>

lemma uploadImageToS3_Inl_printed:
  assumes "uploadImageToS3 E restaurantId itemId imageUrl w = (w', Inl err)"
    and "to_string restaurantId = Inr r" and "to_string itemId = Inr i"
  shows "\<exists>w1. upload_try E restaurantId itemId imageUrl w = (w1, Inl err)
           \<and> w' = console_error [''Error uploading image for restaurantId '' @ r @ '', item '' @ i @ '':'',
                                  message err] w1"
  using assms
  by (auto simp: uploadImageToS3_def upload_catch_def split: sum.splits prod.splits)

subsection \<open>One turn of the loop over the items\<close>

lemma try_block_upload:
  assumes "get_prop item ''image'' = Inr imageUrl" and "truthy imageUrl"
    and "get_prop item ''id'' = Inr itemId"
  shows "try_block E V restaurantId item w = uploadImageToS3 E restaurantId itemId imageUrl w"
  using assms by (simp add: try_block_def)

lemma try_block_no_image:
  assumes "get_prop item ''image'' = Inr imageUrl" and "\<not> truthy imageUrl"
    and "get_prop item ''id'' = Inr itemId"
  shows "try_block E V restaurantId item w = no_image V restaurantId itemId w"
  using assms by (simp add: try_block_def)

lemma no_image_printed:
  assumes "to_string restaurantId = Inr r" and "to_string itemId = Inr i"
  shows "no_image V restaurantId itemId w =
           (console_log [''No original image for restaurantId '' @ r @ '', item '' @ i
                           @ ''. Setting URL to '' @ fallback_text V r i] w,
            Inr (fallback_text V r i))"
  using assms by (simp add: no_image_def fallback_url_printed)

lemma no_image_frame:
  "bucket (fst (no_image V restaurantId itemId w)) = bucket w
   \<and> db (fst (no_image V restaurantId itemId w)) = db w
   \<and> trace (fst (no_image V restaurantId itemId w)) = trace w"
  by (simp add: no_image_def console_log_def split: sum.splits)

lemma catch_block_printed:
  assumes "get_prop item ''id'' = Inr itemId"
    and "to_string restaurantId = Inr r" and "to_string itemId = Inr i"
  shows "catch_block V restaurantId item err w =
           (console_error [''Failed to update image for restaurantId '' @ r @ '', item '' @ i @ '':'',
                           message err] w,
            Inr (fallback_text V r i))"
  using assms by (simp add: catch_block_def fallback_url_printed)

lemma catch_block_frame:
  "bucket (fst (catch_block V restaurantId item err w)) = bucket w
   \<and> db (fst (catch_block V restaurantId item err w)) = db w
   \<and> trace (fst (catch_block V restaurantId item err w)) = trace w"
  by (simp add: catch_block_def console_error_def Let_def split: sum.splits)

text \<open>What the \<open>catch\<close> can give: the fallback, after both ids were printed.\<close>

lemma catch_block_Inr:
  assumes "catch_block V restaurantId item err w = (w', Inr newUrl)"
  shows "fallback_url V restaurantId (field (own_props item) ''id'') = Inr newUrl"
proof (cases "get_prop item ''id''")
  case (Inl e)
  with assms show ?thesis by (simp add: catch_block_def)
next
  case (Inr itemId)
  from get_prop_Inr [OF Inr, of "''id''"] Inr have "itemId = field (own_props item) ''id''"
    by simp
  with assms Inr show ?thesis
    by (auto simp: catch_block_def Let_def split: sum.splits)
qed

lemma no_image_Inr:
  assumes "no_image V restaurantId itemId w = (w', Inr newUrl)"
  shows "fallback_url V restaurantId itemId = Inr newUrl"
  using assms by (auto simp: no_image_def split: sum.splits)

lemma fst_loop_body:
  "fst (loop_body E V restaurantId item w) =
     (case try_block E V restaurantId item w of
        (w1, Inr newUrl) \<Rightarrow> w1
      | (w1, Inl err) \<Rightarrow> fst (catch_block V restaurantId item err w1))"
  by (simp add: loop_body_def split: prod.splits sum.splits)

lemma loop_body_uploaded:
  assumes "get_prop item ''image'' = Inr imageUrl" and "truthy imageUrl"
    and "get_prop item ''id'' = Inr itemId"
    and "uploadImageToS3 E restaurantId itemId imageUrl w = (w', Inr url)"
  shows "loop_body E V restaurantId item w = (w', Inr (spread_image item url))"
  using assms by (simp add: loop_body_def try_block_upload)

lemma loop_body_upload_failed:
  assumes "get_prop item ''image'' = Inr imageUrl" and "truthy imageUrl"
    and "get_prop item ''id'' = Inr itemId"
    and "uploadImageToS3 E restaurantId itemId imageUrl w = (w1, Inl err)"
    and "to_string restaurantId = Inr r" and "to_string itemId = Inr i"
  shows "loop_body E V restaurantId item w =
           (console_error [''Failed to update image for restaurantId '' @ r @ '', item '' @ i @ '':'',
                           message err] w1,
            Inr (spread_image item (fallback_text V r i)))"
  using assms by (simp add: loop_body_def try_block_upload catch_block_printed)

lemma loop_body_upload_failed_frame:
  assumes "get_prop item ''image'' = Inr imageUrl" and "truthy imageUrl"
    and "get_prop item ''id'' = Inr itemId"
    and "uploadImageToS3 E restaurantId itemId imageUrl w = (w1, Inl err)"
  shows "bucket (fst (loop_body E V restaurantId item w)) = bucket w
         \<and> db (fst (loop_body E V restaurantId item w)) = db w"
proof -
  from uploadImageToS3_Inl [OF assms(4)] have "bucket w1 = bucket w" and "db w1 = db w"
    by simp_all
  with catch_block_frame [of V restaurantId item err w1] assms show ?thesis
    by (simp add: fst_loop_body try_block_upload)
qed

lemma loop_body_no_image:
  assumes "get_prop item ''image'' = Inr imageUrl" and "\<not> truthy imageUrl"
    and "get_prop item ''id'' = Inr itemId"
    and "to_string restaurantId = Inr r" and "to_string itemId = Inr i"
  shows "loop_body E V restaurantId item w =
           (console_log [''No original image for restaurantId '' @ r @ '', item '' @ i
                           @ ''. Setting URL to '' @ fallback_text V r i] w,
            Inr (spread_image item (fallback_text V r i)))"
  using assms by (simp add: loop_body_def try_block_no_image no_image_printed)

lemma loop_body_no_image_frame:
  assumes "get_prop item ''image'' = Inr imageUrl" and "\<not> truthy imageUrl"
  shows "bucket (fst (loop_body E V restaurantId item w)) = bucket w
         \<and> db (fst (loop_body E V restaurantId item w)) = db w
         \<and> trace (fst (loop_body E V restaurantId item w)) = trace w"
proof -
  let ?itemId = "field (own_props item) ''id''"
  have iid: "get_prop item ''id'' = Inr ?itemId" by (rule get_prop_Inr [OF assms(1)])
  obtain w1 r where n: "no_image V restaurantId ?itemId w = (w1, r)"
    by (cases "no_image V restaurantId ?itemId w")
  from no_image_frame [of V restaurantId ?itemId w] n
  have f1: "bucket w1 = bucket w \<and> db w1 = db w \<and> trace w1 = trace w" by simp
  show ?thesis
  proof (cases r)
    case (Inr url)
    with n f1 show ?thesis
      by (simp add: fst_loop_body try_block_no_image [OF assms iid])
  next
    case (Inl err)
    with n f1 catch_block_frame [of V restaurantId item err w1] show ?thesis
      by (simp add: fst_loop_body try_block_no_image [OF assms iid])
  qed
qed

lemma loop_body_null:
  assumes "get_prop item ''id'' = Inl e"
  shows "\<exists>e'. loop_body E V restaurantId item w = (w, Inl e')"
proof -
  from get_prop_Inl [OF assms] obtain e1 where "get_prop item ''image'' = Inl e1" by blast
  with assms show ?thesis
    by (simp add: loop_body_def try_block_def catch_block_def)
qed

lemma loop_body_total:
  assumes iid: "get_prop item ''id'' = Inr itemId"
    and r: "to_string restaurantId = Inr r" and i: "to_string itemId = Inr i"
  shows "\<exists>w' newItem. loop_body E V restaurantId item w = (w', Inr newItem)"
proof -
  let ?img = "field (own_props item) ''image''"
  have img: "get_prop item ''image'' = Inr ?img"
    by (rule get_prop_Inr [OF iid])
  show ?thesis
  proof (cases "truthy ?img")
    case False
    from loop_body_no_image [OF img False iid r i] show ?thesis by blast
  next
    case True
    obtain w1 res where up: "uploadImageToS3 E restaurantId itemId ?img w = (w1, res)"
      by (cases "uploadImageToS3 E restaurantId itemId ?img w")
    show ?thesis
    proof (cases res)
      case (Inl err)
      with up loop_body_upload_failed [OF img True iid _ r i, of E w w1 err] show ?thesis
        by blast
    next
      case (Inr url)
      with up loop_body_uploaded [OF img True iid, of E restaurantId w w1 url] show ?thesis
        by blast
    qed
  qed
qed

text \<open>What a turn of the loop can give as the new item.\<close>

lemma loop_body_Inr:
  assumes "loop_body E V restaurantId item w = (w', Inr newItem)"
  shows "relocated V restaurantId item newItem \<and> db w' = db w"
proof (cases "get_prop item ''id''")
  case (Inl e)
  from loop_body_null [OF Inl, of E V restaurantId w] assms show ?thesis by auto
next
  case (Inr itemId0)
  let ?itemId = "field (own_props item) ''id''"
  let ?img = "field (own_props item) ''image''"
  have iid: "get_prop item ''id'' = Inr ?itemId" by (rule get_prop_Inr [OF Inr])
  have img: "get_prop item ''image'' = Inr ?img" by (rule get_prop_Inr [OF Inr])
  have fb: "relocated V restaurantId item (spread_image item url)"
    if "fallback_url V restaurantId ?itemId = Inr url" for url
  proof (cases V)
    case VariantA
    with that have "(case s3_key restaurantId ?itemId of Inl e \<Rightarrow> Inl e
                     | Inr key \<Rightarrow> Inr (public_url key)) = Inr url"
      by (simp only: fallback_url_A)
    then show ?thesis by (auto simp: relocated_def split: sum.splits)
  next
    case VariantB
    with that show ?thesis by (simp add: relocated_def)
  qed
  obtain w1 res where t: "try_block E V restaurantId item w = (w1, res)"
    by (cases "try_block E V restaurantId item w")
  have d1: "db w1 = db w"
  proof (cases "truthy ?img")
    case True
    with t have up: "uploadImageToS3 E restaurantId ?itemId ?img w = (w1, res)"
      by (simp add: try_block_upload [OF img True iid])
    show ?thesis
    proof (cases res)
      case (Inl err)
      with up uploadImageToS3_Inl [of E restaurantId ?itemId ?img w w1 err] show ?thesis by simp
    next
      case (Inr url)
      with up uploadImageToS3_Inr [of E restaurantId ?itemId ?img w w1 url] show ?thesis by auto
    qed
  next
    case False
    with t no_image_frame [of V restaurantId ?itemId w] show ?thesis
      by (simp add: try_block_no_image [OF img False iid])
  qed
  show ?thesis
  proof (cases res)
    case (Inr url)
    with t assms have n: "newItem = spread_image item url" and w': "w' = w1"
      by (simp_all add: loop_body_def)
    have "relocated V restaurantId item (spread_image item url)"
    proof (cases "truthy ?img")
      case True
      with t Inr have "uploadImageToS3 E restaurantId ?itemId ?img w = (w1, Inr url)"
        by (simp add: try_block_upload [OF img True iid])
      from uploadImageToS3_Inr [OF this] show ?thesis
        by (auto simp: relocated_def)
    next
      case False
      with t Inr have "no_image V restaurantId ?itemId w = (w1, Inr url)"
        by (simp add: try_block_no_image [OF img False iid])
      from fb [OF no_image_Inr [OF this]] show ?thesis .
    qed
    with n w' d1 show ?thesis by simp
  next
    case (Inl err)
    obtain w2 res2 where c2: "catch_block V restaurantId item err w1 = (w2, res2)"
      by (cases "catch_block V restaurantId item err w1")
    with t Inl assms obtain url where r2: "res2 = Inr url" and n: "newItem = spread_image item url" and w': "w' = w2"
      by (cases res2) (auto simp: loop_body_def)
    from catch_block_frame [of V restaurantId item err w1] c2 have "db w2 = db w1" by simp
    with fb [OF catch_block_Inr [of V restaurantId item err w1 w2 url]] c2 r2 n w' d1
    show ?thesis by simp
  qed
qed

subsection \<open>The loop over the items\<close>

lemma for_items_Inr:
  assumes "for_items E V restaurantId items updatedItems w = (w', Inr out)"
  shows "\<exists>news. out = updatedItems @ news \<and> list_all2 (relocated V restaurantId) items news
           \<and> db w' = db w"
  using assms
proof (induction items arbitrary: updatedItems w)
  case Nil
  then show ?case by simp
next
  case (Cons item rest)
  obtain w1 r where lb: "loop_body E V restaurantId item w = (w1, r)"
    by (cases "loop_body E V restaurantId item w")
  show ?case
  proof (cases r)
    case (Inl e)
    with lb Cons.prems show ?thesis by simp
  next
    case (Inr newItem)
    with lb Cons.prems have rec: "for_items E V restaurantId rest (updatedItems @ [newItem]) w1 = (w', Inr out)"
      by simp
    from Cons.IH [OF rec] obtain news where
      out: "out = (updatedItems @ [newItem]) @ news"
      and rel: "list_all2 (relocated V restaurantId) rest news" and d: "db w' = db w1"
      by blast
    from loop_body_Inr [of E V restaurantId item w w1 newItem] lb Inr
    have "relocated V restaurantId item newItem" and "db w1 = db w"
      by simp_all
    with out rel d show ?thesis
      by (intro exI [of _ "newItem # news"]) simp
  qed
qed

lemma for_items_total:
  assumes "\<forall>item\<in>set items. \<exists>v. get_prop item ''id'' = Inr v \<and> printable v \<and> printable restaurantId"
  shows "\<exists>w' out. for_items E V restaurantId items updatedItems w = (w', Inr out)"
  using assms
proof (induction items arbitrary: updatedItems w)
  case Nil
  then show ?case by simp
next
  case (Cons item rest)
  then obtain v r i where "get_prop item ''id'' = Inr v" and "to_string restaurantId = Inr r"
    and "to_string v = Inr i"
    by (auto simp: printable_iff)
  from loop_body_total [OF this] obtain w1 newItem where
    "loop_body E V restaurantId item w = (w1, Inr newItem)" by blast
  moreover from Cons have "\<exists>w' out. for_items E V restaurantId rest (updatedItems @ [newItem]) w1 = (w', Inr out)"
    by simp
  ultimately show ?case by simp
qed

lemma relocated_fields:
  assumes "relocated V restaurantId item newItem" and "k \<noteq> ''image''"
  shows "map_of (own_props newItem) k = map_of (own_props item) k"
  using assms
  by (auto simp: relocated_def spread_image_def map_of_set_prop_other split: sum.splits)

lemma relocated_image:
  assumes "relocated V restaurantId item newItem"
  shows "\<exists>url. get_prop newItem ''image'' = Inr (JStr url)
           \<and> url \<noteq> []
           \<and> prefix ''https://gobbl-restaurant-images-bucket.s3.ap-south-1.amazonaws.com/'' url
           \<and> ((\<exists>r i. to_string restaurantId = Inr r
                    \<and> to_string (field (own_props item) ''id'') = Inr i
                    \<and> url = ''https://gobbl-restaurant-images-bucket.s3.ap-south-1.amazonaws.com/''
                              @ r @ ''/'' @ r @ ''-'' @ i @ ''.jpg'')
                \<or> V = VariantB \<and> url = ''https://gobbl-restaurant-images-bucket.s3.ap-south-1.amazonaws.com/landscape-placeholder-svgrepo-co.jpg'')"
proof -
  let ?P = "''https://gobbl-restaurant-images-bucket.s3.ap-south-1.amazonaws.com/''"
  from assms consider
      (item_url) key where "s3_key restaurantId (field (own_props item) ''id'') = Inr key"
        and "newItem = spread_image item (public_url key)"
    | (placeholder) "V = VariantB" and "newItem = spread_image item PLACEHOLDER"
    by (auto simp: relocated_def split: sum.splits)
  then show ?thesis
  proof cases
    case item_url
    from item_url(1) obtain r i where r: "to_string restaurantId = Inr r"
      and i: "to_string (field (own_props item) ''id'') = Inr i"
      and k: "key = r @ ''/'' @ r @ ''-'' @ i @ ''.jpg''"
      by (auto simp: s3_key_Inr)
    let ?K = "r @ ''/'' @ r @ ''-'' @ i @ ''.jpg''"
    have u: "public_url key = ?P @ ?K" using k by (simp add: public_url_literal)
    have p: "prefix ?P (?P @ ?K)" by (rule prefixI [OF refl])
    have n: "?P @ ?K \<noteq> []" by simp
    from item_url(2) u have "get_prop newItem ''image'' = Inr (JStr (?P @ ?K))" by simp
    with p n r i show ?thesis by blast
  next
    case placeholder
    have u: "PLACEHOLDER = ?P @ ''landscape-placeholder-svgrepo-co.jpg''"
      by (simp add: PLACEHOLDER_def)
    have p: "prefix ?P PLACEHOLDER" unfolding u by (rule prefixI [OF refl])
    have n: "PLACEHOLDER \<noteq> []" by (simp add: PLACEHOLDER_def)
    have l: "PLACEHOLDER = ''https://gobbl-restaurant-images-bucket.s3.ap-south-1.amazonaws.com/landscape-placeholder-svgrepo-co.jpg''"
      by (simp add: PLACEHOLDER_def)
    from placeholder have "get_prop newItem ''image'' = Inr (JStr PLACEHOLDER)" by simp
    with p n l placeholder(1) show ?thesis by metis
  qed
qed

text \<open>In \<open>index.js\<close> a new item says that its ids can be printed, and keeps its \<open>id\<close>.\<close>

lemma relocated_A_printable:
  assumes "relocated VariantA restaurantId item m"
  shows "\<exists>v. get_prop m ''id'' = Inr v \<and> printable v \<and> printable restaurantId"
proof -
  from assms obtain key where k: "s3_key restaurantId (field (own_props item) ''id'') = Inr key"
    and m: "m = spread_image item (public_url key)"
    by (auto simp: relocated_def split: sum.splits)
  from m have "get_prop m ''id'' = Inr (field (own_props item) ''id'')"
    by (simp add: spread_image_def field_set_prop_other)
  with k show ?thesis by (auto simp: s3_key_Inr printable_iff)
qed

lemma relocated_A_again:
  assumes "relocated VariantA restaurantId item m" and "relocated VariantA restaurantId m n"
  shows "n = m"
  using assms
  by (auto simp: relocated_def spread_image_def field_set_prop_other set_prop_idem split: sum.splits)

lemma relocated_A_list_again:
  assumes "list_all2 (relocated VariantA restaurantId) items ms"
    and "list_all2 (relocated VariantA restaurantId) ms out"
  shows "out = ms"
proof (rule nth_equalityI)
  show "length out = length ms" using assms(2) by (simp add: list_all2_lengthD)
next
  fix i assume "i < length out"
  with assms have i: "i < length ms" "i < length items"
    by (simp_all add: list_all2_lengthD)
  from relocated_A_again [OF list_all2_nthD [OF assms(1) i(2)] list_all2_nthD [OF assms(2) i(1)]]
  show "out ! i = ms ! i" .
qed

lemma for_items_migrated:
  assumes "list_all2 (relocated VariantA restaurantId) items migrated"
  shows "\<exists>w2. for_items E VariantA restaurantId migrated [] w = (w2, Inr migrated) \<and> db w2 = db w"
proof -
  have "\<forall>m\<in>set migrated. \<exists>v. get_prop m ''id'' = Inr v \<and> printable v \<and> printable restaurantId"
  proof
    fix m assume "m \<in> set migrated"
    then obtain i where "i < length migrated" and "m = migrated ! i"
      by (auto simp: in_set_conv_nth)
    with assms have "relocated VariantA restaurantId (items ! i) m"
      by (simp add: list_all2_conv_all_nth)
    then show "\<exists>v. get_prop m ''id'' = Inr v \<and> printable v \<and> printable restaurantId"
      by (rule relocated_A_printable)
  qed
  from for_items_total [OF this] obtain w2 out where
    fi: "for_items E VariantA restaurantId migrated [] w = (w2, Inr out)" by blast
  from for_items_Inr [OF fi] have "list_all2 (relocated VariantA restaurantId) migrated out"
    and d: "db w2 = db w" by simp_all
  from relocated_A_list_again [OF assms this(1)] fi d show ?thesis by simp
qed

subsection \<open>The update\<close>

lemma find_set_items:
  assumes "find (\<lambda>d. field d ''_id'' = i) ds = Some d"
  shows "find (\<lambda>d. field d ''_id'' = i) (set_items i updatedItems ds)
           = Some (set_prop d ''items'' (JArr updatedItems))"
  using assms
  by (induction ds) (auto simp: field_set_prop_other split: if_splits)

lemma log_updated_frame:
  "db (fst (log_updated restaurantId w)) = db w \<and> bucket (fst (log_updated restaurantId w)) = bucket w"
  by (simp add: log_updated_def console_log_def split: sum.splits)

lemma updateOne_db:
  "updateOne E i updatedItems w = (w', r) \<Longrightarrow>
     (case r of Inl e \<Rightarrow> db w' = db w | Inr u \<Rightarrow> db w' = set_items i updatedItems (db w))"
  by (auto simp: updateOne_def emit_def Let_def split: option.splits)

lemma processDocument_Inr:
  assumes "truthy (field doc ''restaurantId'')" and "field doc ''items'' = JArr items"
    and "processDocument E V doc w = (w', Inr u)"
  shows "\<exists>w1 updatedItems.
           for_items E V (field doc ''restaurantId'') items [] w = (w1, Inr updatedItems)
         \<and> db w' = set_items (field doc ''_id'') updatedItems (db w)"
proof -
  let ?rid = "field doc ''restaurantId''"
  obtain w1 r where fi: "for_items E V ?rid items [] w = (w1, r)"
    by (cases "for_items E V ?rid items [] w")
  show ?thesis
  proof (cases r)
    case (Inl e)
    with fi assms show ?thesis by (simp add: processDocument_def)
  next
    case (Inr updatedItems)
    with fi have fi': "for_items E V ?rid items [] w = (w1, Inr updatedItems)"
      by simp
    from for_items_Inr [OF fi'] have d: "db w1 = db w" by simp
    obtain w2 r2 where up: "updateOne E (field doc ''_id'') updatedItems w1 = (w2, r2)"
      by (cases "updateOne E (field doc ''_id'') updatedItems w1")
    show ?thesis
    proof (cases r2)
      case (Inl e)
      with assms fi' up show ?thesis by (simp add: processDocument_def)
    next
      case (Inr u2)
      with assms fi' up have "log_updated ?rid w2 = (w', Inr u)"
        by (simp add: processDocument_def)
      with log_updated_frame [of ?rid w2] have "db w' = db w2" by simp
      with updateOne_db [OF up] Inr d fi' show ?thesis by simp
    qed
  qed
qed

text \<open>What a run of \<open>processDocument\<close> over migrated items can leave in the
  collection.\<close>

lemma processDocument_db:
  assumes "truthy (field doc ''restaurantId'')" and "field doc ''items'' = JArr items"
    and "for_items E V (field doc ''restaurantId'') items [] w = (w1, Inr updatedItems)"
    and "db w1 = db w"
    and "processDocument E V doc w = (w', r)"
  shows "db w' = db w \<or> db w' = set_items (field doc ''_id'') updatedItems (db w)"
proof -
  let ?rid = "field doc ''restaurantId''"
  obtain w2 r2 where up: "updateOne E (field doc ''_id'') updatedItems w1 = (w2, r2)"
    by (cases "updateOne E (field doc ''_id'') updatedItems w1")
  show ?thesis
  proof (cases r2)
    case (Inl e)
    with assms up have "w' = w2" by (simp add: processDocument_def)
    moreover from updateOne_db [OF up] Inl have "db w2 = db w1" by simp
    ultimately show ?thesis using assms(4) by simp
  next
    case (Inr u2)
    with assms up have "w' = fst (log_updated ?rid w2)"
      by (simp add: processDocument_def)
    with log_updated_frame [of ?rid w2] updateOne_db [OF up] Inr assms(4) show ?thesis by simp
  qed
qed

subsection \<open>Closing lines on the console\<close>

lemma verdicts_console_log:
  "verdicts (console_log args w) = verdicts w + (if is_verdict (LOG, args) then 1 else 0)"
  by (simp add: verdicts_def console_log_def)

lemma verdicts_console_warn:
  "verdicts (console_warn args w) = verdicts w + (if is_verdict (WARN, args) then 1 else 0)"
  by (simp add: verdicts_def console_warn_def)

lemma verdicts_console_error:
  "verdicts (console_error args w) = verdicts w + (if is_verdict (ERROR, args) then 1 else 0)"
  by (simp add: verdicts_def console_error_def)

lemma verdicts_emit [simp]: "verdicts (emit e w) = verdicts w"
  by (simp add: verdicts_def emit_def)

lemma verdicts_bucket_update [simp]: "verdicts (w\<lparr>bucket := b\<rparr>) = verdicts w"
  by (simp add: verdicts_def)

lemma verdicts_db_update [simp]: "verdicts (w\<lparr>db := b\<rparr>) = verdicts w"
  by (simp add: verdicts_def)

lemma verdicts_upload_try:
  "verdicts (fst (upload_try E restaurantId itemId imageUrl w)) = verdicts w"
  by (simp add: upload_try_def Let_def split: sum.splits option.splits)

lemma verdicts_upload_catch:
  "verdicts (fst (upload_catch restaurantId itemId error w)) = verdicts w"
proof (cases "template [Lit ''Error uploading image for restaurantId '', Sub restaurantId,
                        Lit '', item '', Sub itemId, Lit '':'']")
  case (Inl e)
  then show ?thesis by (simp add: upload_catch_def del: template.simps)
next
  case (Inr line)
  then obtain u where "line = ''Error uploading image for restaurantId '' @ u"
    unfolding template_Lit_Inr by blast
  with Inr show ?thesis
    by (simp add: upload_catch_def verdicts_console_error is_verdict_def del: template.simps)
qed

lemma verdicts_uploadImageToS3:
  "verdicts (fst (uploadImageToS3 E restaurantId itemId imageUrl w)) = verdicts w"
proof -
  obtain w1 r where t: "upload_try E restaurantId itemId imageUrl w = (w1, r)"
    by (cases "upload_try E restaurantId itemId imageUrl w")
  with verdicts_upload_try [of E restaurantId itemId imageUrl w] have "verdicts w1 = verdicts w"
    by simp
  with t show ?thesis
    by (cases r) (simp_all add: uploadImageToS3_def verdicts_upload_catch)
qed

lemma verdicts_no_image:
  "verdicts (fst (no_image V restaurantId itemId w)) = verdicts w"
proof (cases "fallback_url V restaurantId itemId")
  case (Inl e)
  then show ?thesis by (simp add: no_image_def)
next
  case (Inr newUrl)
  show ?thesis
  proof (cases "template [Lit ''No original image for restaurantId '', Sub restaurantId,
                          Lit '', item '', Sub itemId, Lit ''. Setting URL to '', Lit newUrl]")
    case (Inl e)
    with Inr show ?thesis by (simp add: no_image_def del: template.simps)
  next
    case line: (Inr line)
    then obtain u where "line = ''No original image for restaurantId '' @ u"
      unfolding template_Lit_Inr by blast
    with Inr line show ?thesis
      by (simp add: no_image_def verdicts_console_log is_verdict_def del: template.simps)
  qed
qed

lemma verdicts_try_block:
  "verdicts (fst (try_block E V restaurantId item w)) = verdicts w"
  by (simp add: try_block_def verdicts_uploadImageToS3 verdicts_no_image split: sum.splits)

lemma verdicts_catch_block:
  "verdicts (fst (catch_block V restaurantId item err w)) = verdicts w"
proof (cases "get_prop item ''id''")
  case (Inl e)
  then show ?thesis by (simp add: catch_block_def)
next
  case (Inr itemId)
  show ?thesis
  proof (cases "template [Lit ''Failed to update image for restaurantId '', Sub restaurantId,
                          Lit '', item '', Sub itemId, Lit '':'']")
    case (Inl e)
    with Inr show ?thesis by (simp add: catch_block_def del: template.simps)
  next
    case line: (Inr line)
    then obtain u where "line = ''Failed to update image for restaurantId '' @ u"
      unfolding template_Lit_Inr by blast
    with Inr line show ?thesis
      by (simp add: catch_block_def Let_def verdicts_console_error is_verdict_def
               split: sum.splits del: template.simps)
  qed
qed

lemma verdicts_loop_body:
  "verdicts (fst (loop_body E V restaurantId item w)) = verdicts w"
proof -
  obtain w1 r where t: "try_block E V restaurantId item w = (w1, r)"
    by (cases "try_block E V restaurantId item w")
  from verdicts_try_block [of E V restaurantId item w] t have v1: "verdicts w1 = verdicts w"
    by simp
  with t verdicts_catch_block [of V restaurantId item _ w1] show ?thesis
    by (cases r) (simp_all add: fst_loop_body)
qed

lemma verdicts_for_items:
  "verdicts (fst (for_items E V restaurantId items updatedItems w)) = verdicts w"
proof (induction items arbitrary: updatedItems w)
  case Nil
  show ?case by simp
next
  case (Cons item rest)
  obtain w1 r where lb: "loop_body E V restaurantId item w = (w1, r)"
    by (cases "loop_body E V restaurantId item w")
  from verdicts_loop_body [of E V restaurantId item w] lb have v1: "verdicts w1 = verdicts w"
    by simp
  show ?case
  proof (cases r)
    case (Inl e)
    with lb v1 show ?thesis by simp
  next
    case (Inr newItem)
    with lb v1 Cons.IH [of "updatedItems @ [newItem]" w1] show ?thesis by simp
  qed
qed

lemma verdicts_skip_document:
  "verdicts (fst (skip_document doc w))
     = verdicts w + (case snd (skip_document doc w) of Inl e \<Rightarrow> 0 | Inr u \<Rightarrow> 1)"
proof (cases "template [Lit ''Skipping document '', Sub (field doc ''_id''),
                        Lit '' due to missing restaurantId or items.'']")
  case (Inl e)
  then show ?thesis by (simp add: skip_document_def del: template.simps)
next
  case (Inr line)
  then obtain u where "line = ''Skipping document '' @ u"
    unfolding template_Lit_Inr by blast
  with Inr show ?thesis
    by (simp add: skip_document_def verdicts_console_warn is_verdict_def del: template.simps)
qed

lemma verdicts_log_updated:
  "verdicts (fst (log_updated restaurantId w))
     = verdicts w + (case snd (log_updated restaurantId w) of Inl e \<Rightarrow> 0 | Inr u \<Rightarrow> 1)"
proof (cases "template [Lit ''Updated document for restaurantId '', Sub restaurantId]")
  case (Inl e)
  then show ?thesis by (simp add: log_updated_def del: template.simps)
next
  case (Inr line)
  then obtain u where "line = ''Updated document for restaurantId '' @ u"
    unfolding template_Lit_Inr by blast
  with Inr show ?thesis
    by (simp add: log_updated_def verdicts_console_log is_verdict_def del: template.simps)
qed

lemma verdicts_updateOne: "verdicts (fst (updateOne E i updatedItems w)) = verdicts w"
  by (simp add: updateOne_def Let_def split: option.splits)

lemma verdicts_processDocument:
  "verdicts (fst (processDocument E V doc w))
     = verdicts w + (case snd (processDocument E V doc w) of Inl e \<Rightarrow> 0 | Inr u \<Rightarrow> 1)"
proof (cases "\<not> truthy (field doc ''restaurantId'') \<or> \<not> isArray (field doc ''items'')")
  case True
  then show ?thesis
    using verdicts_skip_document [of doc w] by (auto simp: processDocument_def)
next
  case False
  let ?rid = "field doc ''restaurantId''"
  obtain w1 r where fi: "for_items E V ?rid (elements (field doc ''items'')) [] w = (w1, r)"
    by (cases "for_items E V ?rid (elements (field doc ''items'')) [] w")
  from verdicts_for_items [of E V ?rid "elements (field doc ''items'')" "[]" w] fi
  have v1: "verdicts w1 = verdicts w" by simp
  show ?thesis
  proof (cases r)
    case (Inl e)
    with False fi v1 show ?thesis by (simp add: processDocument_def)
  next
    case (Inr updatedItems)
    obtain w2 r2 where up: "updateOne E (field doc ''_id'') updatedItems w1 = (w2, r2)"
      by (cases "updateOne E (field doc ''_id'') updatedItems w1")
    from verdicts_updateOne [of E "field doc ''_id''" updatedItems w1] up v1
    have v2: "verdicts w2 = verdicts w" by simp
    show ?thesis
    proof (cases r2)
      case (Inl e)
      with False fi Inr up v2 show ?thesis by (simp add: processDocument_def)
    next
      case r2: (Inr u2)
      with False fi Inr up have "processDocument E V doc w = log_updated ?rid w2"
        by (simp add: processDocument_def)
      with verdicts_log_updated [of ?rid w2] v2 show ?thesis by simp
    qed
  qed
qed

lemma try_processDocument_printed:
  assumes "to_string (field doc ''_id'') = Inr i"
  shows "try_processDocument E V doc w =
           (case processDocument E V doc w of
              (w1, Inr u) \<Rightarrow> (w1, Inr ())
            | (w1, Inl error) \<Rightarrow>
                (console_error [''Error processing document '' @ i @ '':'', message error] w1, Inr ()))"
  using assms by (simp add: try_processDocument_def split: prod.splits sum.splits)

lemma verdicts_try_processDocument:
  assumes "to_string (field doc ''_id'') = Inr i"
  shows "\<exists>w1. try_processDocument E V doc w = (w1, Inr ()) \<and> verdicts w1 = verdicts w + 1"
proof -
  obtain w1 r where p: "processDocument E V doc w = (w1, r)"
    by (cases "processDocument E V doc w")
  with verdicts_processDocument [of E V doc w] show ?thesis
    by (cases r)
       (simp_all add: try_processDocument_printed [OF assms] verdicts_console_error is_verdict_def)
qed

lemma verdicts_report_progress [simp]: "verdicts (report_progress count w) = verdicts w"
  by (simp add: report_progress_def verdicts_console_log is_verdict_def)

lemma doc_loop_visits_all:
  assumes "\<forall>d\<in>set docs. printable (field d ''_id'')"
  shows "\<exists>w' c. doc_loop E V docs count w = (w', Inr c) \<and> verdicts w' = verdicts w + length docs"
  using assms
proof (induction docs arbitrary: count w)
  case Nil
  then show ?case by simp
next
  case (Cons doc rest)
  then obtain i where "to_string (field doc ''_id'') = Inr i"
    by (auto simp: printable_iff)
  from verdicts_try_processDocument [OF this, of E V w] obtain w1 where
    t: "try_processDocument E V doc w = (w1, Inr ())" and v: "verdicts w1 = verdicts w + 1"
    by blast
  from Cons obtain w' c where
    "doc_loop E V rest (js_incr count) (report_progress (js_incr count) w1) = (w', Inr c)"
    and "verdicts w' = verdicts (report_progress (js_incr count) w1) + length rest"
    by (metis list.set_intros(2))
  with t v show ?case by simp
qed

lemma verdicts_updateRestaurantMenusImages:
  assumes "connect_error E = None" and "\<forall>d\<in>set (db w). printable (field d ''_id'')"
  shows "verdicts (updateRestaurantMenusImages E w) = verdicts w + length (db w)
         \<and> (\<exists>es. console (updateRestaurantMenusImages E w)
                    = es @ [(LOG, [''Finished processing all documents.'']),
                            (LOG, [''Disconnected from MongoDB.''])])"
proof -
  let ?w1 = "console_log [''Connected to MongoDB''] (emit Connect w)"
  have d: "db ?w1 = db w" by (simp add: console_log_def emit_def)
  have v1: "verdicts ?w1 = verdicts w"
    by (simp add: verdicts_console_log is_verdict_def)
  from doc_loop_visits_all [of "db ?w1" E VariantA 0 ?w1] assms(2) d obtain w2 c where
    l: "doc_loop E VariantA (db ?w1) 0 ?w1 = (w2, Inr c)"
    and v2: "verdicts w2 = verdicts ?w1 + length (db w)"
    by auto
  have eq: "updateRestaurantMenusImages E w
              = finally_A (console_log [''Finished processing all documents.''] w2)"
    using assms(1) l by (simp add: updateRestaurantMenusImages_def Let_def after_loop_def)
  have a: "verdicts (updateRestaurantMenusImages E w) = verdicts w + length (db w)"
    unfolding eq using v1 v2 by (simp add: finally_A_def verdicts_console_log is_verdict_def)
  have b: "console (updateRestaurantMenusImages E w)
             = console w2 @ [(LOG, [''Finished processing all documents.'']),
                             (LOG, [''Disconnected from MongoDB.''])]"
    unfolding eq by (simp add: finally_A_def console_log_def emit_def)
  from a b show ?thesis by blast
qed

subsection \<open>The run of \<open>part_000\<close>\<close>

text \<open>In every environment and from every world, the run of \<open>part_000\<close> writes two
  lines on the console, closes the connection and exits; it changes nothing else.\<close>

lemma updateRestaurantMenusImages_B_throws:
  "updateRestaurantMenusImages_B E w =
     w\<lparr>console := console w @ [(LOG, [''fetched from db'']),
                               (ERROR, [''Error updating restaurant menus images:'',
                                        ''collection is not iterable''])],
       trace := trace w @ [Close, Exit 0]\<rparr>"
  by (simp add: updateRestaurantMenusImages_B_def finally_B_def emit_def console_log_def
                console_error_def)

subsection \<open>The examples, run\<close>

text \<open>The end-to-end example of the specification in \<open>index.js\<close>; the same document
  when S3 refuses every \<open>putObject\<close>; a document with a \<open>null\<close> item, on which
  \<open>processDocument\<close> throws from its \<open>catch\<close>.\<close>

lemma example_end_to_end:
  "db (fst (processDocument ex_env_ok VariantA ex_doc ex_world)) = [ex_doc_migrated]"
  by code_simp

lemma example_s3_down:
  "db (fst (processDocument ex_env_s3_down VariantA ex_doc ex_world)) = [ex_doc_migrated]
   \<and> bucket (fst (processDocument ex_env_s3_down VariantA ex_doc ex_world)) ''42/42-1.jpg'' = None"
  by code_simp

lemma example_null_item:
  "snd (processDocument ex_env_ok VariantA ex_doc_null_item ex_world)
     = Inl (TypeError (''Cannot read properties of null (reading '' @ [CHR 0x27] @ ''id'' @ [CHR 0x27] @ '')''))
   \<and> db (fst (processDocument ex_env_ok VariantA ex_doc_null_item ex_world)) = [ex_doc]"
  by code_simp

section \<open>The claims of the specification\<close>

text \<open>
  C1. For every item with a non-empty (truthy) \<open>image\<close> whose relocation succeeds, that
  is, \<open>uploadImageToS3\<close> returns a URL: both ids were printed, the URL is
  \<open>https://gobbl-restaurant-images-bucket.s3.ap-south-1.amazonaws.com/{restaurantId}/{restaurantId}-{itemId}.jpg\<close>,
  it is the \<open>image\<close> of the new item, and the bucket differs from the bucket before in
  exactly one key, \<open>{restaurantId}/{restaurantId}-{itemId}.jpg\<close>, which now holds the
  fetched bytes with content type \<open>image/jpeg\<close>. Both variants.
\<close>

theorem C1_relocation_success:
  assumes img: "get_prop item ''image'' = Inr imageUrl" and t: "truthy imageUrl"
    and iid: "get_prop item ''id'' = Inr itemId"
    and up: "uploadImageToS3 E restaurantId itemId imageUrl w = (w', Inr url)"
  shows "\<exists>r i. to_string restaurantId = Inr r \<and> to_string itemId = Inr i
       \<and> url = ''https://gobbl-restaurant-images-bucket.s3.ap-south-1.amazonaws.com/''
                 @ r @ ''/'' @ r @ ''-'' @ i @ ''.jpg''
       \<and> (\<exists>newItem. loop_body E V restaurantId item w = (w', Inr newItem)
             \<and> get_prop newItem ''image'' = Inr (JStr url))
       \<and> (\<exists>buffer. http_get E (length (trace w)) imageUrl = Inr buffer
             \<and> bucket w' = (bucket w)(r @ ''/'' @ r @ ''-'' @ i @ ''.jpg''
                                      \<mapsto> \<lparr>Body = buffer, ContentType = ''image/jpeg''\<rparr>))"
proof -
  from uploadImageToS3_Inr [OF up] obtain buffer key where
    get: "http_get E (length (trace w)) imageUrl = Inr buffer"
    and key: "s3_key restaurantId itemId = Inr key"
    and url: "url = public_url key"
    and w': "w' = w\<lparr>trace := trace w @ [HttpGet imageUrl, PutObject BUCKET_NAME key buffer ''image/jpeg''],
                   bucket := (bucket w)(key \<mapsto> \<lparr>Body = buffer, ContentType = ''image/jpeg''\<rparr>)\<rparr>"
    by blast
  from key obtain r i where r: "to_string restaurantId = Inr r" and i: "to_string itemId = Inr i"
    and k: "key = r @ ''/'' @ r @ ''-'' @ i @ ''.jpg''"
    by (auto simp: s3_key_Inr)
  have a: "url = ''https://gobbl-restaurant-images-bucket.s3.ap-south-1.amazonaws.com/''
                 @ r @ ''/'' @ r @ ''-'' @ i @ ''.jpg''"
    using url k by (simp add: public_url_literal)
  have "loop_body E V restaurantId item w = (w', Inr (spread_image item url))"
    by (rule loop_body_uploaded [OF img t iid up])
  moreover have "get_prop (spread_image item url) ''image'' = Inr (JStr url)"
    by simp
  ultimately have b: "\<exists>newItem. loop_body E V restaurantId item w = (w', Inr newItem)
             \<and> get_prop newItem ''image'' = Inr (JStr url)"
    by blast
  have "bucket w' = (bucket w)(key \<mapsto> \<lparr>Body = buffer, ContentType = ''image/jpeg''\<rparr>)"
    using w' by simp
  with get k have c: "\<exists>buffer. http_get E (length (trace w)) imageUrl = Inr buffer
             \<and> bucket w' = (bucket w)(r @ ''/'' @ r @ ''-'' @ i @ ''.jpg''
                                      \<mapsto> \<lparr>Body = buffer, ContentType = ''image/jpeg''\<rparr>)"
    by blast
  from r i a b c show ?thesis by blast
qed

theorem C1_relocation_success_witness:
  "get_prop ex_item1 ''image'' = Inr (JStr ''http://ex.com/a.png'')
   \<and> truthy (JStr ''http://ex.com/a.png'')
   \<and> get_prop ex_item1 ''id'' = Inr (JNum ''1'')
   \<and> snd (uploadImageToS3 ex_env_ok (JNum ''42'') (JNum ''1'') (JStr ''http://ex.com/a.png'') ex_world)
       = Inr ''https://gobbl-restaurant-images-bucket.s3.ap-south-1.amazonaws.com/42/42-1.jpg''
   \<and> bucket (fst (uploadImageToS3 ex_env_ok (JNum ''42'') (JNum ''1'') (JStr ''http://ex.com/a.png'') ex_world))
       = (bucket ex_world)(''42/42-1.jpg'' \<mapsto> \<lparr>Body = [0xFF, 0xD8, 0xFF], ContentType = ''image/jpeg''\<rparr>)"
proof -
  let ?u = "JStr ''http://ex.com/a.png''"
  let ?r = "uploadImageToS3 ex_env_ok (JNum ''42'') (JNum ''1'') ?u ex_world"
  have h1: "get_prop ex_item1 ''image'' = Inr ?u" by code_simp
  have h2: "truthy ?u" by simp
  have h3: "get_prop ex_item1 ''id'' = Inr (JNum ''1'')" by code_simp
  have s: "snd ?r = Inr ''https://gobbl-restaurant-images-bucket.s3.ap-south-1.amazonaws.com/42/42-1.jpg''"
    by code_simp
  then have h4: "?r = (fst ?r, Inr ''https://gobbl-restaurant-images-bucket.s3.ap-south-1.amazonaws.com/42/42-1.jpg'')"
    by (simp add: prod_eq_iff)
  have g: "http_get ex_env_ok (length (trace ex_world)) ?u = Inr [0xFF, 0xD8, 0xFF]"
    by (simp add: ex_env_ok_def)
  from C1_relocation_success [OF h1 h2 h3 h4, where V = VariantA] g
  have "bucket (fst ?r) = (bucket ex_world)(''42/42-1.jpg'' \<mapsto> \<lparr>Body = [0xFF, 0xD8, 0xFF], ContentType = ''image/jpeg''\<rparr>)"
    by auto
  with h1 h2 h3 s show ?thesis by blast
qed

text \<open>
  C2, amended. A document whose \<open>restaurantId\<close> is falsy or whose \<open>items\<close> is not an
  array: \<open>processDocument\<close> makes no update (the collection, the bucket and the trace
  of service calls are as before), and when the document's \<open>_id\<close> can be printed it
  returns normally, and the world it leaves is the world it found with one warning
  more on the console. Both variants.
\<close>

theorem C2_skip_malformed_document:
  assumes "\<not> truthy (field doc ''restaurantId'') \<or> \<not> isArray (field doc ''items'')"
  shows "db (fst (processDocument E V doc w)) = db w
         \<and> bucket (fst (processDocument E V doc w)) = bucket w
         \<and> trace (fst (processDocument E V doc w)) = trace w
         \<and> (\<forall>i. to_string (field doc ''_id'') = Inr i \<longrightarrow>
               processDocument E V doc w =
                 (w\<lparr>console := console w @ [(WARN, [''Skipping document '' @ i
                                                     @ '' due to missing restaurantId or items.''])]\<rparr>,
                  Inr ()))"
proof -
  from assms have p: "processDocument E V doc w = skip_document doc w"
    by (auto simp: processDocument_def)
  have a: "db (fst (skip_document doc w)) = db w \<and> bucket (fst (skip_document doc w)) = bucket w
           \<and> trace (fst (skip_document doc w)) = trace w"
    by (simp add: skip_document_def console_warn_def split: sum.splits)
  have b: "skip_document doc w =
             (w\<lparr>console := console w @ [(WARN, [''Skipping document '' @ i
                                                 @ '' due to missing restaurantId or items.''])]\<rparr>,
              Inr ())"
    if "to_string (field doc ''_id'') = Inr i" for i
    using that by (simp add: skip_document_def console_warn_def)
  from a b show ?thesis unfolding p by blast
qed

theorem C2_skip_malformed_document_witness:
  "\<not> truthy (field ex_doc_no_rid ''restaurantId'')
   \<and> to_string (field ex_doc_no_rid ''_id'') = Inr ''d0''
   \<and> processDocument ex_env_ok VariantA ex_doc_no_rid ex_world =
           (ex_world\<lparr>console := [(WARN, [''Skipping document d0 due to missing restaurantId or items.''])]\<rparr>,
            Inr ())
   \<and> db (fst (processDocument ex_env_ok VariantA ex_doc_no_rid ex_world)) = [ex_doc]"
proof -
  have f: "\<not> truthy (field ex_doc_no_rid ''restaurantId'')"
    by (simp add: ex_doc_no_rid_def field_def)
  then have h: "\<not> truthy (field ex_doc_no_rid ''restaurantId'') \<or> \<not> isArray (field ex_doc_no_rid ''items'')"
    by simp
  have i: "to_string (field ex_doc_no_rid ''_id'') = Inr ''d0''"
    by (simp add: ex_doc_no_rid_def field_def)
  from C2_skip_malformed_document [OF h, of ex_env_ok VariantA ex_world] f i
  show ?thesis by (simp add: ex_world_def)
qed

text \<open>
  C2 as stated fails on a document without \<open>restaurantId\<close> whose \<open>_id\<close> is an embedded
  document with a field \<open>toString\<close>: the template literal of the warning throws,
  \<open>processDocument\<close> throws, and no warning is recorded.
\<close>

theorem C2_skip_malformed_document_counterexample:
  "\<not> truthy (field ex_doc_bad_id ''restaurantId'')
   \<and> snd (processDocument ex_env_ok VariantA ex_doc_bad_id ex_world_bad_id)
       = Inl (TypeError ''Cannot convert object to primitive value'')
   \<and> console (fst (processDocument ex_env_ok VariantA ex_doc_bad_id ex_world_bad_id)) = []"
  by code_simp

text \<open>
  C3, amended. An item with a non-empty (truthy) \<open>image\<close> whose relocation throws, that
  is, \<open>uploadImageToS3\<close> returns an error: the bucket after the turn of the loop is the
  bucket before it. When the restaurant's and the item's id can be printed, the turn of
  the loop catches the error and reports it, the new item's \<open>image\<close> is the fallback
  (in \<open>index.js\<close> the URL built from the two ids, in \<open>part_000\<close> the placeholder), and
  the loop goes on with the remaining items.
\<close>

theorem C3_relocation_failure:
  assumes img: "get_prop item ''image'' = Inr imageUrl" and t: "truthy imageUrl"
    and iid: "get_prop item ''id'' = Inr itemId"
    and up: "uploadImageToS3 E restaurantId itemId imageUrl w = (w1, Inl err)"
  shows "bucket (fst (loop_body E V restaurantId item w)) = bucket w
       \<and> (\<forall>r i. to_string restaurantId = Inr r \<and> to_string itemId = Inr i \<longrightarrow>
            (\<exists>w' newItem newUrl.
               loop_body E V restaurantId item w = (w', Inr newItem)
             \<and> get_prop newItem ''image'' = Inr (JStr newUrl)
             \<and> newUrl = (case V of
                   VariantA \<Rightarrow> ''https://gobbl-restaurant-images-bucket.s3.ap-south-1.amazonaws.com/''
                                 @ r @ ''/'' @ r @ ''-'' @ i @ ''.jpg''
                 | VariantB \<Rightarrow> ''https://gobbl-restaurant-images-bucket.s3.ap-south-1.amazonaws.com/landscape-placeholder-svgrepo-co.jpg'')
             \<and> bucket w' = bucket w
             \<and> console w' = console w1 @ [(ERROR, [''Failed to update image for restaurantId ''
                   @ r @ '', item '' @ i @ '':'', message err])]
             \<and> for_items E V restaurantId (item # rest) updatedItems w
                 = for_items E V restaurantId rest (updatedItems @ [newItem]) w'))"
proof -
  have a: "bucket (fst (loop_body E V restaurantId item w)) = bucket w"
    using loop_body_upload_failed_frame [OF img t iid up] by simp
  have b: "\<exists>w' newItem newUrl.
               loop_body E V restaurantId item w = (w', Inr newItem)
             \<and> get_prop newItem ''image'' = Inr (JStr newUrl)
             \<and> newUrl = (case V of
                   VariantA \<Rightarrow> ''https://gobbl-restaurant-images-bucket.s3.ap-south-1.amazonaws.com/''
                                 @ r @ ''/'' @ r @ ''-'' @ i @ ''.jpg''
                 | VariantB \<Rightarrow> ''https://gobbl-restaurant-images-bucket.s3.ap-south-1.amazonaws.com/landscape-placeholder-svgrepo-co.jpg'')
             \<and> bucket w' = bucket w
             \<and> console w' = console w1 @ [(ERROR, [''Failed to update image for restaurantId ''
                   @ r @ '', item '' @ i @ '':'', message err])]
             \<and> for_items E V restaurantId (item # rest) updatedItems w
                 = for_items E V restaurantId rest (updatedItems @ [newItem]) w'"
    if r: "to_string restaurantId = Inr r" and i: "to_string itemId = Inr i" for r i
  proof -
    let ?url = "fallback_text V r i"
    let ?w' = "console_error [''Failed to update image for restaurantId '' @ r @ '', item '' @ i @ '':'',
                              message err] w1"
    have body: "loop_body E V restaurantId item w = (?w', Inr (spread_image item ?url))"
      by (rule loop_body_upload_failed [OF img t iid up r i])
    have im: "get_prop (spread_image item ?url) ''image'' = Inr (JStr ?url)"
      by simp
    have bk: "bucket ?w' = bucket w"
      using a body by simp
    have co: "console ?w' = console w1 @ [(ERROR, [''Failed to update image for restaurantId ''
                 @ r @ '', item '' @ i @ '':'', message err])]"
      by (simp add: console_error_def)
    have lp: "for_items E V restaurantId (item # rest) updatedItems w
               = for_items E V restaurantId rest (updatedItems @ [spread_image item ?url]) ?w'"
      by (simp add: body)
    from body im bk co lp fallback_text_def [of V r i] show ?thesis
      by blast
  qed
  from a b show ?thesis by blast
qed

theorem C3_relocation_failure_witness:
  "get_prop ex_item1 ''image'' = Inr (JStr ''http://ex.com/a.png'')
   \<and> truthy (JStr ''http://ex.com/a.png'')
   \<and> get_prop ex_item1 ''id'' = Inr (JNum ''1'')
   \<and> snd (uploadImageToS3 ex_env_net_down (JNum ''42'') (JNum ''1'') (JStr ''http://ex.com/a.png'') ex_world)
         = Inl (Error ''Network Error'')
   \<and> to_string (JNum ''42'') = Inr ''42'' \<and> to_string (JNum ''1'') = Inr ''1''
   \<and> (\<exists>w' newItem. loop_body ex_env_net_down VariantB (JNum ''42'') ex_item1 ex_world = (w', Inr newItem)
         \<and> get_prop newItem ''image'' = Inr (JStr ''https://gobbl-restaurant-images-bucket.s3.ap-south-1.amazonaws.com/landscape-placeholder-svgrepo-co.jpg'')
         \<and> bucket w' = bucket ex_world
         \<and> for_items ex_env_net_down VariantB (JNum ''42'') [ex_item1, ex_item2] [] ex_world
             = for_items ex_env_net_down VariantB (JNum ''42'') [ex_item2] [newItem] w')"
proof -
  let ?u = "JStr ''http://ex.com/a.png''"
  let ?r = "uploadImageToS3 ex_env_net_down (JNum ''42'') (JNum ''1'') ?u ex_world"
  have h1: "get_prop ex_item1 ''image'' = Inr ?u" by code_simp
  have h2: "truthy ?u" by simp
  have h3: "get_prop ex_item1 ''id'' = Inr (JNum ''1'')" by code_simp
  have s: "snd ?r = Inl (Error ''Network Error'')" by code_simp
  then have h4: "?r = (fst ?r, Inl (Error ''Network Error''))"
    by (simp add: prod_eq_iff)
  have p: "to_string (JNum ''42'') = Inr ''42'' \<and> to_string (JNum ''1'') = Inr ''1''" by simp
  from C3_relocation_failure [OF h1 h2 h3 h4, where V = VariantB and rest = "[ex_item2]" and updatedItems = "[]",
        THEN conjunct2, rule_format, OF p]
  have "\<exists>w' newItem. loop_body ex_env_net_down VariantB (JNum ''42'') ex_item1 ex_world = (w', Inr newItem)
         \<and> get_prop newItem ''image'' = Inr (JStr ''https://gobbl-restaurant-images-bucket.s3.ap-south-1.amazonaws.com/landscape-placeholder-svgrepo-co.jpg'')
         \<and> bucket w' = bucket ex_world
         \<and> for_items ex_env_net_down VariantB (JNum ''42'') [ex_item1, ex_item2] [] ex_world
             = for_items ex_env_net_down VariantB (JNum ''42'') [ex_item2] [newItem] w'"
    by auto
  with h1 h2 h3 s p show ?thesis by blast
qed

text \<open>
  C3 as stated fails on an item whose \<open>id\<close> is an embedded document with a field
  \<open>toString\<close>, in \<open>index.js\<close> with every fetch failing: the relocation throws, the
  \<open>catch\<close> of the loop throws from its own template literal, the error leaves the loop
  and the item after it is not processed.
\<close>

theorem C3_relocation_failure_counterexample:
  "get_prop ex_item_bad_id_image ''image'' = Inr (JStr ''http://ex.com/a.png'')
   \<and> truthy (JStr ''http://ex.com/a.png'')
   \<and> snd (uploadImageToS3 ex_env_net_down (JNum ''42'') (JObj [(''toString'', JStr ''x'')])
             (JStr ''http://ex.com/a.png'') ex_world)
       = Inl (TypeError ''Cannot convert object to primitive value'')
   \<and> snd (loop_body ex_env_net_down VariantA (JNum ''42'') ex_item_bad_id_image ex_world)
       = Inl (TypeError ''Cannot convert object to primitive value'')
   \<and> snd (for_items ex_env_net_down VariantA (JNum ''42'') [ex_item_bad_id_image, ex_item2] [] ex_world)
       = Inl (TypeError ''Cannot convert object to primitive value'')
   \<and> console (fst (for_items ex_env_net_down VariantA (JNum ''42'') [ex_item_bad_id_image, ex_item2] []
                      ex_world)) = []"
  by code_simp

text \<open>
  C4, amended. An item whose \<open>image\<close> is empty or absent (falsy: \<open>undefined\<close>, \<open>null\<close>,
  the empty string, \<open>0\<close>, \<open>NaN\<close>, \<open>false\<close>): the turn of the loop calls no service
  (the trace is unchanged: no fetch, no \<open>putObject\<close>) and leaves the bucket and the
  collection as they are. When the restaurant's and the item's id can be printed, it
  gives the new item the fallback as its \<open>image\<close> and writes one line on the console.
\<close>

theorem C4_no_image:
  assumes img: "get_prop item ''image'' = Inr imageUrl" and f: "\<not> truthy imageUrl"
    and iid: "get_prop item ''id'' = Inr itemId"
  shows "trace (fst (loop_body E V restaurantId item w)) = trace w
       \<and> bucket (fst (loop_body E V restaurantId item w)) = bucket w
       \<and> db (fst (loop_body E V restaurantId item w)) = db w
       \<and> (\<forall>r i. to_string restaurantId = Inr r \<and> to_string itemId = Inr i \<longrightarrow>
            (\<exists>w' newItem newUrl.
               loop_body E V restaurantId item w = (w', Inr newItem)
             \<and> get_prop newItem ''image'' = Inr (JStr newUrl)
             \<and> newUrl = (case V of
                   VariantA \<Rightarrow> ''https://gobbl-restaurant-images-bucket.s3.ap-south-1.amazonaws.com/''
                                 @ r @ ''/'' @ r @ ''-'' @ i @ ''.jpg''
                 | VariantB \<Rightarrow> ''https://gobbl-restaurant-images-bucket.s3.ap-south-1.amazonaws.com/landscape-placeholder-svgrepo-co.jpg'')
             \<and> console w' = console w @ [(LOG, [''No original image for restaurantId ''
                   @ r @ '', item '' @ i @ ''. Setting URL to '' @ newUrl])]))"
proof -
  have a: "trace (fst (loop_body E V restaurantId item w)) = trace w
       \<and> bucket (fst (loop_body E V restaurantId item w)) = bucket w
       \<and> db (fst (loop_body E V restaurantId item w)) = db w"
    using loop_body_no_image_frame [OF img f] by simp
  have b: "\<exists>w' newItem newUrl.
               loop_body E V restaurantId item w = (w', Inr newItem)
             \<and> get_prop newItem ''image'' = Inr (JStr newUrl)
             \<and> newUrl = (case V of
                   VariantA \<Rightarrow> ''https://gobbl-restaurant-images-bucket.s3.ap-south-1.amazonaws.com/''
                                 @ r @ ''/'' @ r @ ''-'' @ i @ ''.jpg''
                 | VariantB \<Rightarrow> ''https://gobbl-restaurant-images-bucket.s3.ap-south-1.amazonaws.com/landscape-placeholder-svgrepo-co.jpg'')
             \<and> console w' = console w @ [(LOG, [''No original image for restaurantId ''
                   @ r @ '', item '' @ i @ ''. Setting URL to '' @ newUrl])]"
    if r: "to_string restaurantId = Inr r" and i: "to_string itemId = Inr i" for r i
  proof -
    let ?url = "fallback_text V r i"
    let ?w' = "console_log [''No original image for restaurantId '' @ r @ '', item '' @ i
                             @ ''. Setting URL to '' @ ?url] w"
    have body: "loop_body E V restaurantId item w = (?w', Inr (spread_image item ?url))"
      by (rule loop_body_no_image [OF img f iid r i])
    have im: "get_prop (spread_image item ?url) ''image'' = Inr (JStr ?url)"
      by simp
    have co: "console ?w' = console w @ [(LOG, [''No original image for restaurantId ''
                 @ r @ '', item '' @ i @ ''. Setting URL to '' @ ?url])]"
      by (simp add: console_log_def)
    from body im co fallback_text_def [of V r i] show ?thesis
      by blast
  qed
  from a b show ?thesis by blast
qed

theorem C4_no_image_witness:
  "get_prop ex_item2 ''image'' = Inr JNull
   \<and> \<not> truthy JNull
   \<and> get_prop ex_item2 ''id'' = Inr (JNum ''2'')
   \<and> to_string (JNum ''42'') = Inr ''42'' \<and> to_string (JNum ''2'') = Inr ''2''
   \<and> trace (fst (loop_body ex_env_ok VariantA (JNum ''42'') ex_item2 ex_world)) = trace ex_world
   \<and> (\<exists>w' newItem. loop_body ex_env_ok VariantA (JNum ''42'') ex_item2 ex_world = (w', Inr newItem)
         \<and> get_prop newItem ''image'' = Inr (JStr ''https://gobbl-restaurant-images-bucket.s3.ap-south-1.amazonaws.com/42/42-2.jpg''))"
proof -
  have h1: "get_prop ex_item2 ''image'' = Inr JNull" by code_simp
  have h2: "\<not> truthy JNull" by simp
  have h3: "get_prop ex_item2 ''id'' = Inr (JNum ''2'')" by code_simp
  have p: "to_string (JNum ''42'') = Inr ''42'' \<and> to_string (JNum ''2'') = Inr ''2''" by simp
  note th = C4_no_image [OF h1 h2 h3, of ex_env_ok VariantA "JNum ''42''" ex_world]
  from th have a: "trace (fst (loop_body ex_env_ok VariantA (JNum ''42'') ex_item2 ex_world)) = trace ex_world"
    by blast
  from th [THEN conjunct2, THEN conjunct2, THEN conjunct2, rule_format, OF p]
  have "\<exists>w' newItem. loop_body ex_env_ok VariantA (JNum ''42'') ex_item2 ex_world = (w', Inr newItem)
         \<and> get_prop newItem ''image'' = Inr (JStr ''https://gobbl-restaurant-images-bucket.s3.ap-south-1.amazonaws.com/42/42-2.jpg'')"
    by auto
  with h1 h2 h3 p a show ?thesis by blast
qed

text \<open>
  C4 as stated fails on an item with no image whose \<open>id\<close> is an embedded document with
  a field \<open>toString\<close>: in both files the turn of the loop throws, and there is no new
  item.
\<close>

theorem C4_no_image_counterexample:
  "get_prop ex_item_bad_id ''image'' = Inr JNull
   \<and> \<not> truthy JNull
   \<and> snd (loop_body ex_env_ok VariantA (JNum ''42'') ex_item_bad_id ex_world)
       = Inl (TypeError ''Cannot convert object to primitive value'')
   \<and> snd (loop_body ex_env_ok VariantB (JNum ''42'') ex_item_bad_id ex_world)
       = Inl (TypeError ''Cannot convert object to primitive value'')"
  by code_simp

text \<open>
  C5. When the loop over the items of a document completes, it has made one new item
  for every item, in the same order, and every property other than \<open>image\<close> is in the
  new item exactly when it is in the old one, with the same value. This holds in every
  environment, so whether the relocation of an item succeeded, failed or was skipped.
\<close>

theorem C5_other_fields_preserved:
  assumes "for_items E V restaurantId items [] w = (w', Inr updatedItems)"
  shows "length updatedItems = length items
         \<and> (\<forall>i<length items. \<forall>k. k \<noteq> ''image'' \<longrightarrow>
               map_of (own_props (updatedItems ! i)) k = map_of (own_props (items ! i)) k)"
proof -
  from for_items_Inr [OF assms] have rel: "list_all2 (relocated V restaurantId) items updatedItems"
    by simp
  then have len: "length updatedItems = length items"
    by (simp add: list_all2_lengthD)
  have "map_of (own_props (updatedItems ! i)) k = map_of (own_props (items ! i)) k"
    if "i < length items" and "k \<noteq> ''image''" for i k
    using relocated_fields [OF list_all2_nthD [OF rel that(1)] that(2)] .
  with len show ?thesis by blast
qed

theorem C5_other_fields_preserved_witness:
  "snd (for_items ex_env_net_down VariantB (JNum ''42'') [ex_item1, ex_item2] [] ex_world)
     = Inr [JObj [(''id'', JNum ''1''), (''image'', JStr PLACEHOLDER), (''name'', JStr ''Dal'')],
            JObj [(''id'', JNum ''2''), (''image'', JStr PLACEHOLDER)]]
   \<and> (0::nat) < length [ex_item1, ex_item2] \<and> ''name'' \<noteq> ''image''
   \<and> map_of (own_props (JObj [(''id'', JNum ''1''), (''image'', JStr PLACEHOLDER), (''name'', JStr ''Dal'')])) ''name''
       = map_of (own_props ex_item1) ''name''"
proof -
  let ?new = "[JObj [(''id'', JNum ''1''), (''image'', JStr PLACEHOLDER), (''name'', JStr ''Dal'')],
               JObj [(''id'', JNum ''2''), (''image'', JStr PLACEHOLDER)]]"
  let ?r = "for_items ex_env_net_down VariantB (JNum ''42'') [ex_item1, ex_item2] [] ex_world"
  have s: "snd ?r = Inr ?new" by code_simp
  then have h: "?r = (fst ?r, Inr ?new)" by (simp add: prod_eq_iff)
  have i: "(0::nat) < length [ex_item1, ex_item2]" by simp
  have k: "''name'' \<noteq> ''image''" by simp
  from C5_other_fields_preserved [OF h, THEN conjunct2, rule_format, OF i k]
  have "map_of (own_props (?new ! 0)) ''name'' = map_of (own_props ([ex_item1, ex_item2] ! 0)) ''name''" .
  then have "map_of (own_props (JObj [(''id'', JNum ''1''), (''image'', JStr PLACEHOLDER), (''name'', JStr ''Dal'')])) ''name''
       = map_of (own_props ex_item1) ''name''"
    by simp
  with s i k show ?thesis by blast
qed

text \<open>
  C6. A document with a truthy \<open>restaurantId\<close> and an array as \<open>items\<close>, stored in
  the collection under its \<open>_id\<close>: when \<open>processDocument\<close> completes (it has persisted),
  the stored document's \<open>items\<close> has one item for every item of the document, and the
  \<open>image\<close> of each is a non-empty string that starts with
  \<open>https://gobbl-restaurant-images-bucket.s3.ap-south-1.amazonaws.com/\<close> and continues
  with \<open>{restaurantId}/{restaurantId}-{itemId}.jpg\<close>, the two ids as they print, or is,
  in \<open>part_000\<close> only, the placeholder URL.
\<close>

theorem C6_persisted_images:
  assumes rid: "truthy (field doc ''restaurantId'')" and its: "field doc ''items'' = JArr items"
    and run: "processDocument E V doc w = (w', Inr ())"
    and stored: "find (\<lambda>d. field d ''_id'' = field doc ''_id'') (db w) = Some d"
  shows "\<exists>d' persisted.
           find (\<lambda>d. field d ''_id'' = field doc ''_id'') (db w') = Some d'
         \<and> field d' ''items'' = JArr persisted
         \<and> length persisted = length items
         \<and> (\<forall>i<length items. \<exists>url.
               get_prop (persisted ! i) ''image'' = Inr (JStr url)
             \<and> url \<noteq> []
             \<and> prefix ''https://gobbl-restaurant-images-bucket.s3.ap-south-1.amazonaws.com/'' url
             \<and> ((\<exists>r j. to_string (field doc ''restaurantId'') = Inr r
                      \<and> to_string (field (own_props (items ! i)) ''id'') = Inr j
                      \<and> url = ''https://gobbl-restaurant-images-bucket.s3.ap-south-1.amazonaws.com/''
                                @ r @ ''/'' @ r @ ''-'' @ j @ ''.jpg'')
                  \<or> V = VariantB \<and> url = ''https://gobbl-restaurant-images-bucket.s3.ap-south-1.amazonaws.com/landscape-placeholder-svgrepo-co.jpg''))"
proof -
  from processDocument_Inr [OF rid its run] obtain w1 updatedItems where
    fi: "for_items E V (field doc ''restaurantId'') items [] w = (w1, Inr updatedItems)"
    and d: "db w' = set_items (field doc ''_id'') updatedItems (db w)"
    by blast
  from for_items_Inr [OF fi] have rel: "list_all2 (relocated V (field doc ''restaurantId'')) items updatedItems"
    by simp
  let ?d' = "set_prop d ''items'' (JArr updatedItems)"
  have a: "find (\<lambda>d. field d ''_id'' = field doc ''_id'') (db w') = Some ?d'"
    using find_set_items [OF stored] d by simp
  have b: "field ?d' ''items'' = JArr updatedItems" by simp
  have c: "length updatedItems = length items"
    using rel by (simp add: list_all2_lengthD)
  have e: "\<forall>i<length items. \<exists>url.
               get_prop (updatedItems ! i) ''image'' = Inr (JStr url)
             \<and> url \<noteq> []
             \<and> prefix ''https://gobbl-restaurant-images-bucket.s3.ap-south-1.amazonaws.com/'' url
             \<and> ((\<exists>r j. to_string (field doc ''restaurantId'') = Inr r
                      \<and> to_string (field (own_props (items ! i)) ''id'') = Inr j
                      \<and> url = ''https://gobbl-restaurant-images-bucket.s3.ap-south-1.amazonaws.com/''
                                @ r @ ''/'' @ r @ ''-'' @ j @ ''.jpg'')
                  \<or> V = VariantB \<and> url = ''https://gobbl-restaurant-images-bucket.s3.ap-south-1.amazonaws.com/landscape-placeholder-svgrepo-co.jpg'')"
    using relocated_image [OF list_all2_nthD [OF rel]] by blast
  from a b c e show ?thesis by blast
qed

theorem C6_persisted_images_witness:
  "truthy (field ex_doc ''restaurantId'')
   \<and> field ex_doc ''items'' = JArr [ex_item1, ex_item2]
   \<and> snd (processDocument ex_env_ok VariantA ex_doc ex_world) = Inr ()
   \<and> find (\<lambda>d. field d ''_id'' = field ex_doc ''_id'') (db ex_world) = Some ex_doc
   \<and> (\<exists>d' persisted.
         find (\<lambda>d. field d ''_id'' = field ex_doc ''_id'')
           (db (fst (processDocument ex_env_ok VariantA ex_doc ex_world))) = Some d'
       \<and> field d' ''items'' = JArr persisted
       \<and> length persisted = 2
       \<and> (\<forall>i<2. \<exists>url. get_prop (persisted ! i) ''image'' = Inr (JStr url)
             \<and> prefix ''https://gobbl-restaurant-images-bucket.s3.ap-south-1.amazonaws.com/'' url))"
proof -
  let ?r = "processDocument ex_env_ok VariantA ex_doc ex_world"
  have h1: "truthy (field ex_doc ''restaurantId'')" by code_simp
  have h2: "field ex_doc ''items'' = JArr [ex_item1, ex_item2]" by code_simp
  have s: "snd ?r = Inr ()" by code_simp
  then have h3: "?r = (fst ?r, Inr ())" by (simp add: prod_eq_iff)
  have h4: "find (\<lambda>d. field d ''_id'' = field ex_doc ''_id'') (db ex_world) = Some ex_doc"
    by (simp add: ex_world_def)
  from C6_persisted_images [OF h1 h2 h3 h4] obtain d' persisted where
    a: "find (\<lambda>d. field d ''_id'' = field ex_doc ''_id'') (db (fst ?r)) = Some d'"
    and b: "field d' ''items'' = JArr persisted"
    and c: "length persisted = length [ex_item1, ex_item2]"
    and e: "\<forall>i<length [ex_item1, ex_item2]. \<exists>url. get_prop (persisted ! i) ''image'' = Inr (JStr url)
             \<and> url \<noteq> []
             \<and> prefix ''https://gobbl-restaurant-images-bucket.s3.ap-south-1.amazonaws.com/'' url
             \<and> ((\<exists>r j. to_string (field ex_doc ''restaurantId'') = Inr r
                      \<and> to_string (field (own_props ([ex_item1, ex_item2] ! i)) ''id'') = Inr j
                      \<and> url = ''https://gobbl-restaurant-images-bucket.s3.ap-south-1.amazonaws.com/''
                                @ r @ ''/'' @ r @ ''-'' @ j @ ''.jpg'')
                  \<or> VariantA = VariantB \<and> url = ''https://gobbl-restaurant-images-bucket.s3.ap-south-1.amazonaws.com/landscape-placeholder-svgrepo-co.jpg'')"
    by blast
  have c': "length persisted = 2" using c by simp
  have e': "\<forall>i<2. \<exists>url. get_prop (persisted ! i) ''image'' = Inr (JStr url)
             \<and> prefix ''https://gobbl-restaurant-images-bucket.s3.ap-south-1.amazonaws.com/'' url"
  proof (intro allI impI)
    fix i :: nat
    assume "i < 2"
    then have "i < length [ex_item1, ex_item2]" by simp
    with e show "\<exists>url. get_prop (persisted ! i) ''image'' = Inr (JStr url)
             \<and> prefix ''https://gobbl-restaurant-images-bucket.s3.ap-south-1.amazonaws.com/'' url"
      by blast
  qed
  from a b c' e' have "\<exists>d' persisted.
         find (\<lambda>d. field d ''_id'' = field ex_doc ''_id'') (db (fst ?r)) = Some d'
       \<and> field d' ''items'' = JArr persisted
       \<and> length persisted = 2
       \<and> (\<forall>i<2. \<exists>url. get_prop (persisted ! i) ''image'' = Inr (JStr url)
             \<and> prefix ''https://gobbl-restaurant-images-bucket.s3.ap-south-1.amazonaws.com/'' url)"
    by blast
  with h1 h2 s h4 show ?thesis by blast
qed

text \<open>
  C7, amended. The loop over the documents, in both files, when the \<open>_id\<close> of every
  document the iteration yields can be printed. The loop takes every document and ends
  normally: every document leaves exactly one closing line on the console (skipped,
  updated, or error). When \<open>processDocument\<close> throws on a document (an update that
  fails, an item that is \<open>null\<close>), the error is reported on the console and the loop
  goes on with the documents that remain. In \<open>index.js\<close>, once the connection is
  made, the run ends with \<open>Finished processing all documents.\<close> and
  \<open>Disconnected from MongoDB.\<close>, with one closing line for every document of the
  collection.
\<close>

theorem C7_driver_continues:
  "((\<forall>d\<in>set docs. printable (field d ''_id'')) \<longrightarrow>
      (\<exists>w' c. doc_loop E V docs count w = (w', Inr c) \<and> verdicts w' = verdicts w + length docs))
   \<and> (processDocument E V doc w = (w1, Inl error) \<and> to_string (field doc ''_id'') = Inr i \<longrightarrow>
        doc_loop E V (doc # rest) count w
          = doc_loop E V rest (js_incr count)
              (report_progress (js_incr count)
                 (console_error [''Error processing document '' @ i @ '':'', message error] w1)))
   \<and> (connect_error E = None \<and> (\<forall>d\<in>set (db w). printable (field d ''_id'')) \<longrightarrow>
        verdicts (updateRestaurantMenusImages E w) = verdicts w + length (db w)
        \<and> (\<exists>es. console (updateRestaurantMenusImages E w)
                   = es @ [(LOG, [''Finished processing all documents.'']),
                           (LOG, [''Disconnected from MongoDB.''])]))"
proof -
  have a: "processDocument E V doc w = (w1, Inl error) \<and> to_string (field doc ''_id'') = Inr i \<longrightarrow>
        doc_loop E V (doc # rest) count w
          = doc_loop E V rest (js_incr count)
              (report_progress (js_incr count)
                 (console_error [''Error processing document '' @ i @ '':'', message error] w1))"
    by (simp add: try_processDocument_printed)
  from a doc_loop_visits_all [of docs E V count w] verdicts_updateRestaurantMenusImages [of E w]
  show ?thesis by blast
qed

theorem C7_driver_continues_witness:
  "printable (field ex_doc ''_id'') \<and> printable (field ex_doc_no_rid ''_id'')
   \<and> snd (processDocument ex_env_db_down VariantA ex_doc ex_world) = Inl (Error ''not primary'')
   \<and> to_string (field ex_doc ''_id'') = Inr ''d1''
   \<and> connect_error ex_env_db_down = None
   \<and> doc_loop ex_env_db_down VariantA [ex_doc, ex_doc_no_rid] 0 ex_world
       = doc_loop ex_env_db_down VariantA [ex_doc_no_rid] 1
           (report_progress 1
              (console_error [''Error processing document d1:'', ''not primary'']
                 (fst (processDocument ex_env_db_down VariantA ex_doc ex_world))))
   \<and> (\<exists>w' c. doc_loop ex_env_db_down VariantA [ex_doc, ex_doc_no_rid] 0 ex_world = (w', Inr c)
         \<and> verdicts w' = 2)
   \<and> verdicts (updateRestaurantMenusImages ex_env_db_down ex_world) = 1"
proof -
  let ?r = "processDocument ex_env_db_down VariantA ex_doc ex_world"
  have p1: "printable (field ex_doc ''_id'')" by code_simp
  have p2: "printable (field ex_doc_no_rid ''_id'')" by code_simp
  from p1 p2 have all: "\<forall>d\<in>set [ex_doc, ex_doc_no_rid]. printable (field d ''_id'')" by simp
  from p1 have alldb: "\<forall>d\<in>set (db ex_world). printable (field d ''_id'')"
    by (simp add: ex_world_def)
  have s: "snd ?r = Inl (Error ''not primary'')" by code_simp
  then have h: "?r = (fst ?r, Inl (Error ''not primary''))" by (simp add: prod_eq_iff)
  have i: "to_string (field ex_doc ''_id'') = Inr ''d1''" by code_simp
  have c: "connect_error ex_env_db_down = None" by (simp add: ex_env_db_down_def)
  have v: "verdicts ex_world = 0" by (simp add: verdicts_def ex_world_def)
  have l: "length (db ex_world) = 1" by (simp add: ex_world_def)
  have j: "js_incr 0 = 1" by (simp add: js_incr_def)
  note t = C7_driver_continues [of "[ex_doc, ex_doc_no_rid]" ex_env_db_down VariantA 0 ex_world
             ex_doc "fst ?r" "Error ''not primary''" "''d1''" "[ex_doc_no_rid]"]
  from t [THEN conjunct2, THEN conjunct1, THEN mp, OF conjI [OF h i]]
  have a: "doc_loop ex_env_db_down VariantA [ex_doc, ex_doc_no_rid] 0 ex_world
       = doc_loop ex_env_db_down VariantA [ex_doc_no_rid] 1
           (report_progress 1
              (console_error [''Error processing document d1:'', ''not primary''] (fst ?r)))"
    by (simp add: j del: doc_loop.simps)
  from t [THEN conjunct1, THEN mp, OF all]
  have b: "\<exists>w' c. doc_loop ex_env_db_down VariantA [ex_doc, ex_doc_no_rid] 0 ex_world = (w', Inr c)
         \<and> verdicts w' = 2"
    by (simp add: v numeral_2_eq_2 del: doc_loop.simps)
  from t [THEN conjunct2, THEN conjunct2, THEN mp, OF conjI [OF c alldb]]
  have e: "verdicts (updateRestaurantMenusImages ex_env_db_down ex_world) = 1"
    by (simp add: v l)
  show ?thesis by (intro conjI p1 p2 s i c a b e)
qed

text \<open>
  C7 as stated fails on a collection whose first document has no \<open>restaurantId\<close> and
  an \<open>_id\<close> that is an embedded document with a field \<open>toString\<close>: \<open>processDocument\<close>
  throws on it, the \<open>catch\<close> of the loop throws from its own template literal, the
  error leaves the loop, and the document after it is never processed. The run of
  \<open>index.js\<close> ends without \<open>Finished processing all documents.\<close>
\<close>

theorem C7_driver_continues_counterexample:
  "snd (processDocument ex_env_ok VariantA ex_doc_bad_id ex_world_bad_id)
     = Inl (TypeError ''Cannot convert object to primitive value'')
   \<and> snd (doc_loop ex_env_ok VariantA [ex_doc_bad_id, ex_doc] 0 ex_world_bad_id)
     = Inl (TypeError ''Cannot convert object to primitive value'')
   \<and> db (fst (doc_loop ex_env_ok VariantA [ex_doc_bad_id, ex_doc] 0 ex_world_bad_id))
     = [ex_doc_bad_id, ex_doc]
   \<and> trace (fst (doc_loop ex_env_ok VariantA [ex_doc_bad_id, ex_doc] 0 ex_world_bad_id)) = []
   \<and> db ex_world_bad_id = [ex_doc_bad_id, ex_doc]
   \<and> console (updateRestaurantMenusImages ex_env_ok ex_world_bad_id)
     = [(LOG, [''Connected to MongoDB'']),
        (ERROR, [''Error updating restaurant menus images:'',
                 ''Cannot convert object to primitive value'']),
        (LOG, [''Disconnected from MongoDB.''])]"
  by code_simp

text \<open>
  C8. \<open>index.js\<close>, a second run. After \<open>processDocument\<close> has completed on a stored
  document, running the loop over the migrated items again gives the migrated items
  again, in every environment and from every world (whatever the fetches from the
  bucket URLs and the uploads do); and running \<open>processDocument\<close> again on the stored
  document, from any world that stores it, leaves it stored as it is: same items, same
  image URLs.
\<close>

theorem C8_second_run_same_urls:
  assumes rid: "truthy (field doc ''restaurantId'')" and its: "field doc ''items'' = JArr items"
    and stored: "find (\<lambda>d. field d ''_id'' = field doc ''_id'') (db w) = Some doc"
    and first: "processDocument E VariantA doc w = (w1, Inr ())"
  shows "\<exists>doc1 migrated.
           find (\<lambda>d. field d ''_id'' = field doc ''_id'') (db w1) = Some doc1
         \<and> field doc1 ''items'' = JArr migrated
         \<and> (\<forall>E' w1'. \<exists>w2. for_items E' VariantA (field doc1 ''restaurantId'') migrated [] w1' = (w2, Inr migrated))
         \<and> (\<forall>E' w1' w2 r.
               find (\<lambda>d. field d ''_id'' = field doc ''_id'') (db w1') = Some doc1
             \<longrightarrow> processDocument E' VariantA doc1 w1' = (w2, r)
             \<longrightarrow> find (\<lambda>d. field d ''_id'' = field doc ''_id'') (db w2) = Some doc1)"
proof -
  let ?rid = "field doc ''restaurantId''"
  let ?id = "field doc ''_id''"
  from processDocument_Inr [OF rid its first] obtain w0 migrated where
    fi: "for_items E VariantA ?rid items [] w = (w0, Inr migrated)"
    and d: "db w1 = set_items ?id migrated (db w)"
    by blast
  from for_items_Inr [OF fi] have rel: "list_all2 (relocated VariantA ?rid) items migrated"
    by simp
  let ?doc1 = "set_prop doc ''items'' (JArr migrated)"
  have a: "find (\<lambda>d. field d ''_id'' = ?id) (db w1) = Some ?doc1"
    using find_set_items [OF stored] d by simp
  have b: "field ?doc1 ''items'' = JArr migrated" by simp
  have r1: "field ?doc1 ''restaurantId'' = ?rid" by (simp add: field_set_prop_other)
  have i1: "field ?doc1 ''_id'' = ?id" by (simp add: field_set_prop_other)
  have c: "\<exists>w2. for_items E' VariantA (field ?doc1 ''restaurantId'') migrated [] w1' = (w2, Inr migrated)" for E' w1'
    using for_items_migrated [OF rel, of E' w1'] r1 by auto
  have e: "find (\<lambda>d. field d ''_id'' = ?id) (db w2) = Some ?doc1"
    if st: "find (\<lambda>d. field d ''_id'' = ?id) (db w1') = Some ?doc1"
      and run: "processDocument E' VariantA ?doc1 w1' = (w2, r)" for E' w1' w2 r
  proof -
    from for_items_migrated [OF rel, of E' w1'] obtain w2' where
      fi2: "for_items E' VariantA ?rid migrated [] w1' = (w2', Inr migrated)" and d2: "db w2' = db w1'"
      by blast
    have "truthy (field ?doc1 ''restaurantId'')" using rid r1 by simp
    from processDocument_db [OF this b _ d2 run] fi2 r1 i1
    have "db w2 = db w1' \<or> db w2 = set_items ?id migrated (db w1')"
      by simp
    then show ?thesis
    proof
      assume "db w2 = db w1'"
      with st show ?thesis by simp
    next
      assume "db w2 = set_items ?id migrated (db w1')"
      with find_set_items [OF st, of migrated] show ?thesis
        by (simp add: set_prop_idem)
    qed
  qed
  from a b c e show ?thesis by blast
qed

theorem C8_second_run_same_urls_witness:
  "truthy (field ex_doc ''restaurantId'')
   \<and> field ex_doc ''items'' = JArr [ex_item1, ex_item2]
   \<and> find (\<lambda>d. field d ''_id'' = field ex_doc ''_id'') (db ex_world) = Some ex_doc
   \<and> snd (processDocument ex_env_ok VariantA ex_doc ex_world) = Inr ()
   \<and> find (\<lambda>d. field d ''_id'' = field ex_doc ''_id'')
        (db (fst (processDocument ex_env_ok VariantA ex_doc ex_world))) = Some ex_doc_migrated
   \<and> find (\<lambda>d. field d ''_id'' = field ex_doc ''_id'')
        (db (fst (processDocument ex_env_net_down VariantA ex_doc_migrated
                    (fst (processDocument ex_env_ok VariantA ex_doc ex_world))))) = Some ex_doc_migrated"
proof -
  let ?P = "\<lambda>d. field d ''_id'' = field ex_doc ''_id''"
  let ?r = "processDocument ex_env_ok VariantA ex_doc ex_world"
  let ?r2 = "processDocument ex_env_net_down VariantA ex_doc_migrated (fst ?r)"
  have h1: "truthy (field ex_doc ''restaurantId'')" by code_simp
  have h2: "field ex_doc ''items'' = JArr [ex_item1, ex_item2]" by code_simp
  have h3: "find ?P (db ex_world) = Some ex_doc" by (simp add: ex_world_def)
  have s: "snd ?r = Inr ()" by code_simp
  then have h4: "?r = (fst ?r, Inr ())" by (simp add: prod_eq_iff)
  have m: "find ?P (db (fst ?r)) = Some ex_doc_migrated" by code_simp
  from C8_second_run_same_urls [OF h1 h2 h3 h4] obtain doc1 migrated where
    a: "find ?P (db (fst ?r)) = Some doc1"
    and e: "\<forall>E' w1' w2 r. find ?P (db w1') = Some doc1
             \<longrightarrow> processDocument E' VariantA doc1 w1' = (w2, r)
             \<longrightarrow> find ?P (db w2) = Some doc1"
    by blast
  from a m have d: "doc1 = ex_doc_migrated" by simp
  have "?r2 = (fst ?r2, snd ?r2)" by simp
  with e d m have "find ?P (db (fst ?r2)) = Some ex_doc_migrated" by blast
  with h1 h2 h3 s m show ?thesis by blast
qed

text \<open>
  C9. \<open>part_000\<close> on a collection of 102 documents. The pipeline (\<open>$skip: 101\<close>, then
  the \<open>$project\<close>) would yield one document, the last, and the loop over it would update
  it and say so on the console. The run does neither: the pipeline is never sent, the
  \<open>for ... of\<close> over the \<open>Aggregate\<close> object throws, and the run ends with the
  error on the console, the collection as it was, and no call to a service but the close
  and the exit. The first 101 documents are not passed to \<open>processDocument\<close>, and
  neither is the document after them.
\<close>

theorem C9_skip_offset_failing_input:
  "run_pipeline [Skip 101, Project [''_id'', ''restaurantId'', ''items'']] (db ex_world_102) = [ex_doc]
   \<and> (LOG, [''Updated document for restaurantId 42''])
       \<in> set (console (fst (doc_loop ex_env_ok VariantB
                  (run_pipeline [Skip 101, Project [''_id'', ''restaurantId'', ''items'']] (db ex_world_102))
                  101 ex_world_102)))
   \<and> trace (updateRestaurantMenusImages_B ex_env_ok ex_world_102) = [Close, Exit 0]
   \<and> db (updateRestaurantMenusImages_B ex_env_ok ex_world_102) = db ex_world_102
   \<and> console (updateRestaurantMenusImages_B ex_env_ok ex_world_102)
       = [(LOG, [''fetched from db'']),
          (ERROR, [''Error updating restaurant menus images:'', ''collection is not iterable''])]"
proof -
  have a: "run_pipeline [Skip 101, Project [''_id'', ''restaurantId'', ''items'']] (db ex_world_102) = [ex_doc]"
    by code_simp
  have b: "(LOG, [''Updated document for restaurantId 42''])
       \<in> set (console (fst (doc_loop ex_env_ok VariantB [ex_doc] 101 ex_world_102)))"
    by code_simp
  have c: "trace (updateRestaurantMenusImages_B ex_env_ok ex_world_102) = [Close, Exit 0]"
    by (simp add: updateRestaurantMenusImages_B_throws ex_world_102_def)
  have d: "db (updateRestaurantMenusImages_B ex_env_ok ex_world_102) = db ex_world_102"
    by (simp add: updateRestaurantMenusImages_B_throws)
  have e: "console (updateRestaurantMenusImages_B ex_env_ok ex_world_102)
       = [(LOG, [''fetched from db'']),
          (ERROR, [''Error updating restaurant menus images:'', ''collection is not iterable''])]"
    by (simp add: updateRestaurantMenusImages_B_throws ex_world_102_def)
  from a b c d e show ?thesis by simp
qed

text \<open>
  C10, amended. An item without an \<open>id\<close> (\<open>item.id\<close> is \<open>undefined\<close>), with a
  \<open>restaurantId\<close> that can be printed: the turn of the loop does not throw and does
  not look at the id. The new \<open>image\<close> is the URL ending in
  \<open>{restaurantId}/{restaurantId}-undefined.jpg\<close> (in \<open>part_000\<close> it may also be the
  placeholder; in \<open>index.js\<close> it is that URL on every path), and the only key of the
  bucket that can have been written is \<open>{restaurantId}/{restaurantId}-undefined.jpg\<close>.
\<close>

theorem C10_absent_item_id:
  assumes iid: "get_prop item ''id'' = Inr JUndefined"
    and r: "to_string restaurantId = Inr r"
  shows "\<exists>w' newItem newUrl.
           loop_body E V restaurantId item w = (w', Inr newItem)
         \<and> get_prop newItem ''image'' = Inr (JStr newUrl)
         \<and> (newUrl = ''https://gobbl-restaurant-images-bucket.s3.ap-south-1.amazonaws.com/''
                       @ r @ ''/'' @ r @ ''-undefined.jpg''
            \<or> V = VariantB \<and> newUrl = ''https://gobbl-restaurant-images-bucket.s3.ap-south-1.amazonaws.com/landscape-placeholder-svgrepo-co.jpg'')
         \<and> (bucket w' = bucket w
            \<or> newUrl = ''https://gobbl-restaurant-images-bucket.s3.ap-south-1.amazonaws.com/''
                         @ r @ ''/'' @ r @ ''-undefined.jpg''
              \<and> (\<exists>buffer. bucket w' = (bucket w)(r @ ''/'' @ r @ ''-undefined.jpg''
                                                   \<mapsto> \<lparr>Body = buffer, ContentType = ''image/jpeg''\<rparr>)))"
proof -
  let ?img = "field (own_props item) ''image''"
  have img: "get_prop item ''image'' = Inr ?img"
    by (rule get_prop_Inr [OF iid])
  have u: "to_string JUndefined = Inr ''undefined''" by simp
  let ?U = "''https://gobbl-restaurant-images-bucket.s3.ap-south-1.amazonaws.com/''
              @ r @ ''/'' @ r @ ''-undefined.jpg''"
  let ?K = "r @ ''/'' @ r @ ''-undefined.jpg''"
  have fb: "fallback_text V r ''undefined'' = ?U
            \<or> V = VariantB \<and> fallback_text V r ''undefined''
                 = ''https://gobbl-restaurant-images-bucket.s3.ap-south-1.amazonaws.com/landscape-placeholder-svgrepo-co.jpg''"
    by (cases V) (simp_all add: fallback_text_def)
  show ?thesis
  proof (cases "truthy ?img")
    case False
    from loop_body_no_image [OF img False iid r u, of E V w] fb show ?thesis
      by (auto simp: console_log_def)
  next
    case True
    obtain w1 res where up: "uploadImageToS3 E restaurantId JUndefined ?img w = (w1, res)"
      by (cases "uploadImageToS3 E restaurantId JUndefined ?img w")
    show ?thesis
    proof (cases res)
      case (Inl err)
      with up have up': "uploadImageToS3 E restaurantId JUndefined ?img w = (w1, Inl err)"
        by simp
      from uploadImageToS3_Inl [OF up'] have "bucket w1 = bucket w" by simp
      with loop_body_upload_failed [OF img True iid up' r u, of V] fb show ?thesis
        by (auto simp: console_error_def)
    next
      case (Inr url)
      with up have up': "uploadImageToS3 E restaurantId JUndefined ?img w = (w1, Inr url)"
        by simp
      from uploadImageToS3_Inr [OF up'] obtain buffer key where
        key: "s3_key restaurantId JUndefined = Inr key"
        and url: "url = public_url key"
        and w1: "bucket w1 = (bucket w)(key \<mapsto> \<lparr>Body = buffer, ContentType = ''image/jpeg''\<rparr>)"
        by auto
      from key r have k: "key = ?K" by (simp add: s3_key_printed)
      have ul: "url = ?U" using url k by (simp add: public_url_literal)
      from loop_body_uploaded [OF img True iid up', of V] ul w1 k show ?thesis
        by auto
    qed
  qed
qed

theorem C10_absent_item_id_witness:
  "get_prop ex_item_noid ''id'' = Inr JUndefined
   \<and> to_string (JNum ''42'') = Inr ''42''
   \<and> (\<exists>w' newItem. loop_body ex_env_ok VariantA (JNum ''42'') ex_item_noid ex_world = (w', Inr newItem)
        \<and> get_prop newItem ''image''
            = Inr (JStr ''https://gobbl-restaurant-images-bucket.s3.ap-south-1.amazonaws.com/42/42-undefined.jpg''))"
proof -
  have h: "get_prop ex_item_noid ''id'' = Inr JUndefined" by code_simp
  have k: "to_string (JNum ''42'') = Inr ''42''" by simp
  from C10_absent_item_id [OF h k, of ex_env_ok VariantA ex_world]
  have "\<exists>w' newItem. loop_body ex_env_ok VariantA (JNum ''42'') ex_item_noid ex_world = (w', Inr newItem)
        \<and> get_prop newItem ''image''
            = Inr (JStr ''https://gobbl-restaurant-images-bucket.s3.ap-south-1.amazonaws.com/42/42-undefined.jpg'')"
    by auto
  with h k show ?thesis by blast
qed

text \<open>
  C10 as stated fails on a document that passes the shape check with a \<open>restaurantId\<close>
  that is an embedded document with a field \<open>toString\<close> (it is truthy) and an item
  without an \<open>id\<close>: the turn of the loop throws, and so does \<open>processDocument\<close>.
\<close>

theorem C10_absent_item_id_counterexample:
  "truthy (field ex_doc_bad_rid ''restaurantId'')
   \<and> isArray (field ex_doc_bad_rid ''items'')
   \<and> get_prop (JObj []) ''id'' = Inr JUndefined
   \<and> snd (loop_body ex_env_ok VariantA (field ex_doc_bad_rid ''restaurantId'') (JObj []) ex_world)
       = Inl (TypeError ''Cannot convert object to primitive value'')
   \<and> snd (processDocument ex_env_ok VariantA ex_doc_bad_rid ex_world)
       = Inl (TypeError ''Cannot convert object to primitive value'')"
  by code_simp

end
